theory Spec2Isabelle
  imports Complex_Main
begin

section \<open>Python values and exceptions\<close>

text \<open>
  The decoding engine of \<^verbatim>\<open>mlx_vlm/utils.py\<close> is embedded function by function.
  Exceptions are values of \<open>py_error\<close>; a function that can raise returns
  \<open>py_error + 'a\<close> with \<open>Inl\<close> for the raised exception. \<open>KeyboardInterrupt\<close> stands for
  the exceptions that are not subclasses of \<^verbatim>\<open>Exception\<close>, which an
  \<^verbatim>\<open>except Exception\<close> clause does not catch.
\<close>

datatype py_error =
    ValueError string
  | TypeError string
  | UnboundLocalError string
  | AttributeError string
  | RuntimeError string
  | KeyboardInterrupt

fun is_Exception :: "py_error \<Rightarrow> bool" where
  "is_Exception KeyboardInterrupt = False"
| "is_Exception _ = True"

text \<open>\<^verbatim>\<open>str(e)\<close>: the message of the exception (for \<open>UnboundLocalError\<close> the model keeps
  the variable's name).\<close>

fun str_of :: "py_error \<Rightarrow> string" where
  "str_of (ValueError m) = m"
| "str_of (TypeError m) = m"
| "str_of (UnboundLocalError m) = m"
| "str_of (AttributeError m) = m"
| "str_of (RuntimeError m) = m"
| "str_of KeyboardInterrupt = []"

text \<open>
  A dynamically typed argument value, as far as \<^verbatim>\<open>repetition_penalty\<close> can receive one.
  Floats are modelled by reals (NaN and the infinities are outside the model).
\<close>

datatype pyval = PNone | PBool bool | PInt int | PFloat real | PStr string

text \<open>Python truthiness, \<^verbatim>\<open>isinstance(v, float)\<close>, and the comparison \<^verbatim>\<open>v < 0\<close>,
  which raises \<^verbatim>\<open>TypeError\<close> for a value that cannot be ordered against an int.\<close>

fun truthy :: "pyval \<Rightarrow> bool" where
  "truthy PNone = False"
| "truthy (PBool b) = b"
| "truthy (PInt i) = (i \<noteq> 0)"
| "truthy (PFloat x) = (x \<noteq> 0)"
| "truthy (PStr s) = (s \<noteq> [])"

fun is_float :: "pyval \<Rightarrow> bool" where
  "is_float (PFloat x) = True"
| "is_float _ = False"

fun lt_zero :: "pyval \<Rightarrow> py_error + bool" where
  "lt_zero PNone = Inl (TypeError ''< not supported between instances of NoneType and int'')"
| "lt_zero (PBool b) = Inr False"
| "lt_zero (PInt i) = Inr (i < 0)"
| "lt_zero (PFloat x) = Inr (x < 0)"
| "lt_zero (PStr s) = Inl (TypeError ''< not supported between instances of str and int'')"

text \<open>The numeric value used when a truthy penalty reaches the arithmetic of
  \<^verbatim>\<open>apply_repetition_penalty\<close>. After the guard of \<^verbatim>\<open>generate_step\<close> only the
  \<open>PFloat\<close> case is reachable.\<close>

fun as_real :: "pyval \<Rightarrow> real" where
  "as_real (PFloat x) = x"
| "as_real (PInt i) = of_int i"
| "as_real (PBool b) = (if b then 1 else 0)"
| "as_real _ = 0"

text \<open>Python's slice \<^verbatim>\<open>xs[i:]\<close>: a negative start counts from the end and is clamped
  at the front of the list.\<close>

definition py_slice_from :: "int \<Rightarrow> 'a list \<Rightarrow> 'a list" where
  "py_slice_from i xs =
     (if i < 0 then drop (nat (int (length xs) + i)) xs else drop (nat i) xs)"

section \<open>Arrays: indexing, gather and scatter\<close>

text \<open>
  A logits array has shape \<^verbatim>\<open>[1, vocab]\<close>: the engine decodes one sequence at a time
  (\<^verbatim>\<open>y.item()\<close> needs a single element), so the batch axis is dropped and a logits
  array is the list of its \<^verbatim>\<open>vocab\<close> entries. Token ids are Python ints.

  \<^verbatim>\<open>a[:, indices]\<close> reads the entries at an index array and
  \<^verbatim>\<open>a[:, indices] = v\<close> writes them, one after the other; a negative index counts
  from the end. MLX does not check bounds: outside \<open>-V \<le> i < V\<close> the behaviour of the
  source is undefined, and the theorems below assume indices in range.
\<close>

type_synonym token = int
type_synonym logits = "real list"

definition norm_index :: "nat \<Rightarrow> int \<Rightarrow> nat" where
  "norm_index V i = (if i < 0 then nat (int V + i) else nat i)"

definition gather :: "logits \<Rightarrow> int list \<Rightarrow> real list" where
  "gather l indices = map (\<lambda>i. l ! norm_index (length l) i) indices"

definition scatter :: "logits \<Rightarrow> int list \<Rightarrow> real list \<Rightarrow> logits" where
  "scatter l indices vs =
     fold (\<lambda>(i, v) acc. acc[norm_index (length l) i := v]) (zip indices vs) l"

section \<open>Repetition penalty\<close>

text \<open>
  \<^verbatim>\<open>
  def apply_repetition_penalty(logits, generated_tokens, penalty):
      if len(generated_tokens) > 0:
          indices = mx.array([token for token in generated_tokens])
          selected_logits = logits[:, indices]
          selected_logits = mx.where(
              selected_logits < 0, selected_logits * penalty, selected_logits / penalty)
          logits[:, indices] = selected_logits
      return logits
  \<close>
\<close>

definition apply_repetition_penalty :: "logits \<Rightarrow> token list \<Rightarrow> real \<Rightarrow> logits" where
  "apply_repetition_penalty logits generated_tokens penalty =
     (if length generated_tokens > 0 then
        let indices = generated_tokens;
            selected_logits = gather logits indices;
            selected_logits' =
              map (\<lambda>x. if x < 0 then x * penalty else x / penalty) selected_logits
        in scatter logits indices selected_logits'
      else logits)"

section \<open>Input processing with fallback\<close>

text \<open>
  The processor is an external collaborator: a callable whose signature may or may not
  accept \<^verbatim>\<open>add_special_tokens\<close> and \<^verbatim>\<open>audio\<close>, and which returns the prepared inputs or
  raises. Prompts, images and audio are opaque payloads. Messages are kept in ASCII:
  the colour codes and the quotation marks of the printed warning are left out.
\<close>

record 'x process_args =
  arg_text :: string
  arg_images :: "'x option"
  arg_padding :: bool
  arg_return_tensors :: string
  arg_add_special_tokens :: "bool option"
  arg_audio :: "'x option"

record ('x, 'r) processor =
  proc_repr :: string
  accepts_add_special_tokens :: bool
  accepts_audio :: bool
  process :: "'x process_args \<Rightarrow> py_error + 'r"

definition process_inputs ::
  "('x, 'r) processor \<Rightarrow> string \<Rightarrow> 'x option \<Rightarrow> 'x option \<Rightarrow> bool \<Rightarrow> string \<Rightarrow> py_error + 'r"
where
  "process_inputs processor prompts images audio add_special_tokens return_tensors =
     (let args = \<lparr> arg_text = prompts, arg_images = images, arg_padding = True,
                   arg_return_tensors = return_tensors,
                   arg_add_special_tokens = None, arg_audio = None \<rparr>;
          args = (if accepts_add_special_tokens processor
                  then args\<lparr> arg_add_special_tokens := Some add_special_tokens \<rparr> else args)
      in if audio \<noteq> None then
           (if accepts_audio processor then process processor (args\<lparr> arg_audio := audio \<rparr>)
            else Inl (ValueError (''Processor '' @ proc_repr processor @
                                  '' does not support audio parameter'')))
         else process processor args)"

text \<open>
  \<^verbatim>\<open>process_inputs_with_fallback\<close> returns the processed inputs or raises; the model also
  returns what it printed and the \<^verbatim>\<open>return_tensors\<close> value of every call of
  \<^verbatim>\<open>process_inputs\<close> it made, in order.
\<close>

record 'r fallback_outcome =
  fo_result :: "py_error + 'r"
  fo_printed :: "string list"
  fo_attempts :: "string list"

definition process_inputs_with_fallback ::
  "('x, 'r) processor \<Rightarrow> string \<Rightarrow> 'x option \<Rightarrow> 'x option \<Rightarrow> bool \<Rightarrow> string \<Rightarrow> 'r fallback_outcome"
where
  "process_inputs_with_fallback processor prompts images audio add_special_tokens return_tensors =
     (case process_inputs processor prompts images audio add_special_tokens return_tensors of
        Inr r \<Rightarrow> \<lparr> fo_result = Inr r, fo_printed = [], fo_attempts = [return_tensors] \<rparr>
      | Inl e \<Rightarrow>
          if \<not> is_Exception e then
            \<lparr> fo_result = Inl e, fo_printed = [], fo_attempts = [return_tensors] \<rparr>
          else if return_tensors \<noteq> ''pt'' then
            (let warning = ''Warning: Failed to process inputs with error: '' @ str_of e @
                           ''. Trying to process inputs with return_tensors=pt''
             in case process_inputs processor prompts images audio add_special_tokens ''pt'' of
                  Inr r \<Rightarrow> \<lparr> fo_result = Inr r, fo_printed = [warning],
                             fo_attempts = [return_tensors, ''pt''] \<rparr>
                | Inl fallback_error \<Rightarrow>
                    if \<not> is_Exception fallback_error then
                      \<lparr> fo_result = Inl fallback_error, fo_printed = [warning],
                        fo_attempts = [return_tensors, ''pt''] \<rparr>
                    else
                      \<lparr> fo_result = Inl (ValueError (''Failed to process inputs with error: '' @
                                                       str_of fallback_error)),
                        fo_printed = [warning],
                        fo_attempts = [return_tensors, ''pt''] \<rparr>)
          else
            \<lparr> fo_result = Inl (ValueError (''Failed to process inputs with error: '' @ str_of e)),
              fo_printed = [], fo_attempts = [return_tensors] \<rparr>)"

text \<open>Whether a message contains a given text (Python's \<^verbatim>\<open>sub in msg\<close>).\<close>

definition contains :: "string \<Rightarrow> string \<Rightarrow> bool" where
  "contains msg sub =
     list_ex (\<lambda>i. take (length sub) (drop i msg) = sub) [0 ..< Suc (length msg)]"

section \<open>Sampler\<close>

text \<open>
  The external collaborators of the decoding loop. \<open>forward\<close> abstracts the model together
  with its key/value cache: the logits of the last position after the model has consumed
  the given token sequence (the prompt, then one token per decode step).
  \<^verbatim>\<open>top_p_sampling\<close> (module \<^verbatim>\<open>sample_utils\<close>) and \<^verbatim>\<open>mx.random.categorical\<close> draw from
  the global random state; the first argument counts the draws made so far.
  \<^verbatim>\<open>mx.logsumexp\<close> is the library's floating-point reduction.
\<close>

record collaborators =
  forward :: "token list \<Rightarrow> logits"
  logsumexp :: "logits \<Rightarrow> real"
  top_p_sampling :: "nat \<Rightarrow> logits \<Rightarrow> real \<Rightarrow> real \<Rightarrow> token"
  categorical :: "nat \<Rightarrow> logits \<Rightarrow> token"

text \<open>The keyword arguments of \<^verbatim>\<open>generate_step\<close>. \<open>logit_bias\<close> is the dict in insertion
  order; \<^verbatim>\<open>None\<close> and the empty dict are both falsy and both the empty list.\<close>

record gen_config =
  max_tokens :: int
  temperature :: real
  repetition_penalty :: pyval
  repetition_context_size :: "int option"
  top_p :: real
  logit_bias :: "(int \<times> real) list"

text \<open>\<^verbatim>\<open>mx.argmax\<close> over the last axis: a left-to-right scan that replaces the best entry
  only by a strictly greater one, so the first maximal entry is returned. An empty array
  cannot be reduced.\<close>

primrec argmax_from :: "nat \<Rightarrow> real \<Rightarrow> nat \<Rightarrow> real list \<Rightarrow> nat" where
  "argmax_from best bv i [] = best"
| "argmax_from best bv i (x # xs) =
     (if bv < x then argmax_from i x (Suc i) xs else argmax_from best bv (Suc i) xs)"

definition argmax :: "real list \<Rightarrow> py_error + nat" where
  "argmax xs = (case xs of
                  [] \<Rightarrow> Inl (ValueError ''Cannot argmax reduce zero size array.'')
                | x # rest \<Rightarrow> Inr (argmax_from 0 x 1 rest))"

text \<open>\<^verbatim>\<open>logits[:, indices] += values\<close> with the keys and values of \<^verbatim>\<open>logit_bias\<close>.\<close>

definition add_logit_bias :: "logits \<Rightarrow> (int \<times> real) list \<Rightarrow> logits" where
  "add_logit_bias l bias =
     (let indices = map fst bias; values = map snd bias
      in scatter l indices (map2 (+) (gather l indices) values))"

text \<open>
  \<^verbatim>\<open>
  def sample(logits):
      if logit_bias:
          indices = mx.array(list(logit_bias.keys()))
          values = mx.array(list(logit_bias.values()))
          logits[:, indices] += values
      logprobs = logits - mx.logsumexp(logits)
      if temperature == 0:
          token = mx.argmax(logits, axis=-1)
      else:
          if top_p > 0 and top_p < 1.0:
              token = top_p_sampling(logits, top_p, temperature)
          else:
              token = mx.random.categorical(logits * (1 / temperature))
      return token, logprobs
  \<close>
\<close>

definition biased :: "gen_config \<Rightarrow> logits \<Rightarrow> logits" where
  "biased cfg l = (if logit_bias cfg \<noteq> [] then add_logit_bias l (logit_bias cfg) else l)"

definition sample ::
  "collaborators \<Rightarrow> gen_config \<Rightarrow> nat \<Rightarrow> logits \<Rightarrow> py_error + (token \<times> logits)"
where
  "sample env cfg draws l =
     (let logits = biased cfg l;
          logprobs = map (\<lambda>x. x - logsumexp env logits) logits
      in if temperature cfg = 0 then
           (case argmax logits of
              Inl e \<Rightarrow> Inl e
            | Inr i \<Rightarrow> Inr (int i, logprobs))
         else if top_p cfg > 0 \<and> top_p cfg < 1 then
           Inr (top_p_sampling env draws logits (top_p cfg) (temperature cfg), logprobs)
         else
           Inr (categorical env draws (map (\<lambda>x. x * (1 / temperature cfg)) logits), logprobs))"

section \<open>Decoding loop\<close>

text \<open>
  The guard at the head of \<^verbatim>\<open>generate_step\<close>:
  \<^verbatim>\<open>
  if repetition_penalty and (
      repetition_penalty < 0 or not isinstance(repetition_penalty, float)):
      raise ValueError(
          f"repetition_penalty must be a non-negative float, got {repetition_penalty}")
  \<close>
  The message of the model stops before the formatted value.
\<close>

definition check_repetition_penalty :: "pyval \<Rightarrow> py_error + unit" where
  "check_repetition_penalty rp =
     (if truthy rp then
        (case lt_zero rp of
           Inl e \<Rightarrow> Inl e
         | Inr negative \<Rightarrow>
             if negative \<or> \<not> is_float rp
             then Inl (ValueError ''repetition_penalty must be a non-negative float, got '')
             else Inr ())
      else Inr ())"

text \<open>
  \<^verbatim>\<open>generate_step\<close> is a generator. Its local state between two yields: the loop counter
  \<open>n\<close>, the pending token \<open>y\<close> with its \<open>logprobs\<close>, the repetition context, the tokens the
  model has consumed (what the cache holds) and the number of sampler calls so far.
  The effects of the generator on the model are logged as events.
\<close>

record gen_state =
  g_n :: int
  g_y :: token
  g_logprobs :: logits
  g_repetition_context :: "token list"
  g_fed :: "token list"
  g_draws :: nat

datatype event = CacheCreated | ForwardPass

text \<open>\<^verbatim>\<open>if repetition_context_size: repetition_context = repetition_context[-size:]\<close>,
  with the extra length test of \<^verbatim>\<open>_step\<close> when \<open>only_if_longer\<close> is set.\<close>

definition trim_context :: "bool \<Rightarrow> int option \<Rightarrow> token list \<Rightarrow> token list" where
  "trim_context only_if_longer context_size ctx =
     (case context_size of
        None \<Rightarrow> ctx
      | Some k \<Rightarrow>
          if k \<noteq> 0 then
            (if only_if_longer \<and> \<not> int (length ctx) > k then ctx else py_slice_from (- k) ctx)
          else ctx)"

text \<open>
  The body of the generator up to its loop: the guard, the cache, the initial repetition
  context, the prefill forward pass and the first sample (which applies no penalty and
  does not extend the repetition context).
\<close>

definition generate_step_init ::
  "collaborators \<Rightarrow> gen_config \<Rightarrow> token list \<Rightarrow> event list \<times> (py_error + gen_state)"
where
  "generate_step_init env cfg input_ids =
     (case check_repetition_penalty (repetition_penalty cfg) of
        Inl e \<Rightarrow> ([], Inl e)
      | Inr _ \<Rightarrow>
          let repetition_context = trim_context False (repetition_context_size cfg) input_ids;
              logits = forward env input_ids
          in case sample env cfg 0 logits of
               Inl e \<Rightarrow> ([CacheCreated, ForwardPass], Inl e)
             | Inr (y, logprobs) \<Rightarrow>
                 ([CacheCreated, ForwardPass],
                  Inr \<lparr> g_n = 0, g_y = y, g_logprobs = logprobs,
                        g_repetition_context = repetition_context,
                        g_fed = input_ids, g_draws = 1 \<rparr>))"

text \<open>
  \<^verbatim>\<open>
  def _step(y, **kwargs):
      outputs = model.language_model(y[None], cache=cache, **kwargs)
      logits = outputs.logits[:, -1, :]
      if repetition_penalty:
          logits = apply_repetition_penalty(logits, repetition_context, repetition_penalty)
          y, logprobs = sample(logits)
          repetition_context.append(y.item())
      else:
          y, logprobs = sample(logits)
      if repetition_context_size:
          if len(repetition_context) > repetition_context_size:
              repetition_context = repetition_context[-repetition_context_size:]
      return y, logprobs.squeeze(0)
  \<close>
\<close>

definition inner_step ::
  "collaborators \<Rightarrow> gen_config \<Rightarrow> gen_state \<Rightarrow> py_error + (token \<times> logits \<times> gen_state)"
where
  "inner_step env cfg s =
     (let fed = g_fed s @ [g_y s];
          logits = forward env fed;
          rp = repetition_penalty cfg;
          logits = (if truthy rp
                    then apply_repetition_penalty logits (g_repetition_context s) (as_real rp)
                    else logits)
      in case sample env cfg (g_draws s) logits of
           Inl e \<Rightarrow> Inl e
         | Inr (y, logprobs) \<Rightarrow>
             let ctx = (if truthy rp then g_repetition_context s @ [y]
                        else g_repetition_context s);
                 ctx = trim_context True (repetition_context_size cfg) ctx
             in Inr (y, logprobs,
                     s\<lparr> g_repetition_context := ctx, g_fed := fed,
                        g_draws := Suc (g_draws s) \<rparr>))"

text \<open>
  One resumption of the generator:
  \<^verbatim>\<open>
  n = 0
  while True:
      if n != max_tokens:
          next_y, next_logprobs = _step(y, **kwargs)
          yield y.item(), logprobs
          y, logprobs = next_y, next_logprobs
      if n == max_tokens:
          break
      n += 1
  \<close>
  The assignments after the \<^verbatim>\<open>yield\<close> run when the generator is resumed; they touch only
  the generator's own state and are folded into the state handed over at the yield.
  (The periodic \<^verbatim>\<open>mx.clear_cache()\<close> frees scratch memory only and is left out.)
\<close>

datatype gen_result =
    Yield "token \<times> logits" gen_state
  | StopIteration
  | Raise py_error

definition generate_step_next ::
  "collaborators \<Rightarrow> gen_config \<Rightarrow> gen_state \<Rightarrow> gen_result"
where
  "generate_step_next env cfg s =
     (if g_n s \<noteq> max_tokens cfg then
        (case inner_step env cfg s of
           Inl e \<Rightarrow> Raise e
         | Inr (next_y, next_logprobs, s') \<Rightarrow>
             Yield (g_y s, g_logprobs s)
                   (s'\<lparr> g_y := next_y, g_logprobs := next_logprobs, g_n := g_n s + 1 \<rparr>))
      else StopIteration)"

text \<open>The first \<open>k\<close> items the generator yields from a state (fewer if it stops or raises
  earlier), and the states it is resumed in.\<close>

fun gen_items :: "collaborators \<Rightarrow> gen_config \<Rightarrow> gen_state \<Rightarrow> nat \<Rightarrow> (token \<times> logits) list" where
  "gen_items env cfg s 0 = []"
| "gen_items env cfg s (Suc k) =
     (case generate_step_next env cfg s of
        Yield x s' \<Rightarrow> x # gen_items env cfg s' k
      | StopIteration \<Rightarrow> []
      | Raise e \<Rightarrow> [])"

fun gen_states :: "collaborators \<Rightarrow> gen_config \<Rightarrow> gen_state \<Rightarrow> nat \<Rightarrow> gen_state list" where
  "gen_states env cfg s 0 = [s]"
| "gen_states env cfg s (Suc k) =
     s # (case generate_step_next env cfg s of
            Yield x s' \<Rightarrow> gen_states env cfg s' k
          | StopIteration \<Rightarrow> []
          | Raise e \<Rightarrow> [])"

section \<open>Stopping criteria\<close>

text \<open>
  \<^verbatim>\<open>
  class StoppingCriteria:
      def __init__(self, eos_token_ids, tokenizer=None):
          if isinstance(eos_token_ids, int):
              self.eos_token_ids = [eos_token_ids]
          else:
              self.eos_token_ids = eos_token_ids
          self.tokenizer = tokenizer

      def reset(self, eos_token_ids=None):
          eos_token_ids = (
              eos_token_ids if eos_token_ids is not None else self.tokenizer.eos_token_ids)
          if isinstance(eos_token_ids, int):
              eos_token_ids = [eos_token_ids]
          if self.eos_token_ids != eos_token_ids:
              self.eos_token_ids = eos_token_ids

      def __call__(self, input_ids):
          return input_ids in self.eos_token_ids
  \<close>
  An id argument is a single int or a list of ints. The tokenizer reference is optional;
  of the tokenizer only its configured \<^verbatim>\<open>eos_token_ids\<close> are read.
\<close>

datatype ids = IdInt int | IdList "int list"

fun as_id_list :: "ids \<Rightarrow> int list" where
  "as_id_list (IdInt i) = [i]"
| "as_id_list (IdList l) = l"

record tokenizer_ref =
  tk_eos_token_ids :: ids

record stopping_criteria =
  eos_token_ids :: "int list"
  tokenizer :: "tokenizer_ref option"

definition StoppingCriteria :: "ids \<Rightarrow> tokenizer_ref option \<Rightarrow> stopping_criteria" where
  "StoppingCriteria ids tk = \<lparr> eos_token_ids = as_id_list ids, tokenizer = tk \<rparr>"

definition reset :: "ids option \<Rightarrow> stopping_criteria \<Rightarrow> py_error + stopping_criteria" where
  "reset arg sc =
     (case (case arg of
              Some given \<Rightarrow> Inr given
            | None \<Rightarrow>
                (case tokenizer sc of
                   None \<Rightarrow> Inl (AttributeError ''NoneType object has no attribute eos_token_ids'')
                 | Some tk \<Rightarrow> Inr (tk_eos_token_ids tk))) of
        Inl e \<Rightarrow> Inl e
      | Inr chosen \<Rightarrow>
          let new_ids = as_id_list chosen
          in if eos_token_ids sc \<noteq> new_ids then Inr (sc\<lparr> eos_token_ids := new_ids \<rparr>)
             else Inr sc)"

definition is_stop :: "stopping_criteria \<Rightarrow> token \<Rightarrow> bool" where
  "is_stop sc input_ids = (input_ids \<in> set (eos_token_ids sc))"

section \<open>Generation session wrapper\<close>

text \<open>
  The streaming detokenizer lives in another module; it is taken as a parameter: a state
  of type \<open>'d\<close> with the four operations the wrapper calls.
\<close>

record 'd detokenizer =
  d_reset :: "'d \<Rightarrow> 'd"
  d_add_token :: "token \<Rightarrow> token list \<Rightarrow> 'd \<Rightarrow> 'd"
  d_last_segment :: "'d \<Rightarrow> string"
  d_finalize :: "'d \<Rightarrow> 'd"

text \<open>\<^verbatim>\<open>GenerationResult\<close>, without the two fields read from the wall clock and the device
  after the first token (\<^verbatim>\<open>generation_tps\<close>, \<^verbatim>\<open>peak_memory\<close>).\<close>

record generation_result =
  r_text :: string
  r_token :: token
  r_logprobs :: logits
  r_prompt_tokens :: nat
  r_generation_tokens :: nat
  r_prompt_tps :: real

text \<open>
  What \<^verbatim>\<open>stream_generate\<close> is called with, once the prompt has been resolved to
  \<^verbatim>\<open>input_ids\<close>: the stopping criteria and detokenizer of the processor, the ids to skip,
  and the measured prefill time.
\<close>

record 'd stream_args =
  a_stopping_criteria :: stopping_criteria
  a_detokenizer :: "'d detokenizer"
  a_skip_special_token_ids :: "token list"
  a_prompt_time :: real
  a_input_ids :: "token list"

text \<open>
  The local variables of \<^verbatim>\<open>stream_generate\<close>. \<open>n\<close>, \<open>token\<close> and \<open>logprobs\<close> are the targets
  of the \<^verbatim>\<open>for\<close> loop and \<open>prompt_tps\<close> is assigned inside it: each is unbound (\<open>None\<close>)
  until the loop body has run. \<open>l_yielded\<close> collects the records yielded so far.
\<close>

record 'd stream_state =
  l_n :: "nat option"
  l_token :: "token option"
  l_logprobs :: "logits option"
  l_prompt_tps :: "real option"
  l_detokenizer :: 'd
  l_yielded :: "generation_result list"

text \<open>Binding the loop targets for the next item of \<^verbatim>\<open>enumerate\<close>, and
  \<^verbatim>\<open>if n == 0: prompt_tps = input_ids.size / prompt_time\<close>.\<close>

definition bind_item :: "'d stream_args \<Rightarrow> 'd stream_state \<Rightarrow> token \<times> logits \<Rightarrow> 'd stream_state" where
  "bind_item a st x =
     (let n = (case l_n st of None \<Rightarrow> 0 | Some m \<Rightarrow> Suc m);
          st = st\<lparr> l_n := Some n, l_token := Some (fst x), l_logprobs := Some (snd x) \<rparr>
      in if n = 0
         then st\<lparr> l_prompt_tps := Some (real (length (a_input_ids a)) / a_prompt_time a) \<rparr>
         else st)"

text \<open>
  \<^verbatim>\<open>
  GenerationResult(text=detokenizer.last_segment, token=token, logprobs=logprobs,
                   prompt_tokens=input_ids.size, generation_tokens=n + 1,
                   prompt_tps=prompt_tps, ...)
  \<close>
  The arguments are evaluated in order; reading an unbound local raises
  \<^verbatim>\<open>UnboundLocalError\<close>.
\<close>

definition make_result :: "'d stream_args \<Rightarrow> 'd stream_state \<Rightarrow> py_error + generation_result" where
  "make_result a st =
     (case l_token st of
        None \<Rightarrow> Inl (UnboundLocalError ''token'')
      | Some token \<Rightarrow>
     (case l_logprobs st of
        None \<Rightarrow> Inl (UnboundLocalError ''logprobs'')
      | Some logprobs \<Rightarrow>
     (case l_n st of
        None \<Rightarrow> Inl (UnboundLocalError ''n'')
      | Some n \<Rightarrow>
     (case l_prompt_tps st of
        None \<Rightarrow> Inl (UnboundLocalError ''prompt_tps'')
      | Some prompt_tps \<Rightarrow>
          Inr \<lparr> r_text = d_last_segment (a_detokenizer a) (l_detokenizer st),
                r_token = token, r_logprobs = logprobs,
                r_prompt_tokens = length (a_input_ids a),
                r_generation_tokens = n + 1,
                r_prompt_tps = prompt_tps \<rparr>))))"

text \<open>The outcome of a streaming call: the records yielded, and the exception that ended
  the stream if there was one.\<close>

type_synonym stream_outcome = "generation_result list \<times> py_error option"

text \<open>After the loop: \<^verbatim>\<open>detokenizer.finalize()\<close> and the trailing record.\<close>

definition finish :: "'d stream_args \<Rightarrow> 'd stream_state \<Rightarrow> stream_outcome" where
  "finish a st =
     (let st = st\<lparr> l_detokenizer := d_finalize (a_detokenizer a) (l_detokenizer st) \<rparr>
      in case make_result a st of
           Inl e \<Rightarrow> (l_yielded st, Some e)
         | Inr r \<Rightarrow> (l_yielded st @ [r], None))"

text \<open>The body of the loop for a token that is not a stop token:
  \<^verbatim>\<open>detokenizer.add_token(token, skip_special_token_ids=...)\<close>, then the record.\<close>

definition push_token :: "'d stream_args \<Rightarrow> 'd stream_state \<Rightarrow> token \<Rightarrow> 'd stream_state" where
  "push_token a st t =
     st\<lparr> l_detokenizer :=
           d_add_token (a_detokenizer a) t (a_skip_special_token_ids a) (l_detokenizer st) \<rparr>"

text \<open>
  \<^verbatim>\<open>
  for n, (token, logprobs) in enumerate(generate_step(input_ids, model, ...)):
      if n == 0:
          prompt_tps = input_ids.size / prompt_time
      if tokenizer.stopping_criteria(token):
          break
      detokenizer.add_token(token, skip_special_token_ids=skip_special_token_ids)
      yield GenerationResult(...)
  detokenizer.finalize()
  yield GenerationResult(...)
  \<close>
  With a negative \<^verbatim>\<open>max_tokens\<close> the generator never stops by itself, so the loop need
  not terminate: \<open>None\<close> is the call that runs forever.
\<close>

partial_function (option) stream_loop ::
  "collaborators \<Rightarrow> gen_config \<Rightarrow> 'd stream_args \<Rightarrow> 'd stream_state \<Rightarrow> gen_state
     \<Rightarrow> stream_outcome option"
where
  "stream_loop env cfg a st g =
     (case generate_step_next env cfg g of
        Raise e \<Rightarrow> Some (l_yielded st, Some e)
      | StopIteration \<Rightarrow> Some (finish a st)
      | Yield x g' \<Rightarrow>
          let st = bind_item a st x
          in if is_stop (a_stopping_criteria a) (fst x) then Some (finish a st)
             else
               (let st = push_token a st (fst x)
                in case make_result a st of
                     Inl e \<Rightarrow> Some (l_yielded st, Some e)
                   | Inr r \<Rightarrow> stream_loop env cfg a (st\<lparr> l_yielded := l_yielded st @ [r] \<rparr>) g'))"

declare stream_loop.simps [code]

definition initial_state :: "'d stream_args \<Rightarrow> 'd \<Rightarrow> 'd stream_state" where
  "initial_state a d0 =
     \<lparr> l_n = None, l_token = None, l_logprobs = None, l_prompt_tps = None,
       l_detokenizer = d_reset (a_detokenizer a) d0, l_yielded = [] \<rparr>"

text \<open>
  The streaming call: \<^verbatim>\<open>detokenizer.reset()\<close>, then the loop over the generator, whose body
  starts to run (guard, cache, prefill) when the loop asks for the first item.
\<close>

definition stream_generate ::
  "collaborators \<Rightarrow> gen_config \<Rightarrow> 'd stream_args \<Rightarrow> 'd \<Rightarrow> stream_outcome option"
where
  "stream_generate env cfg a d0 =
     (let st = initial_state a d0
      in case generate_step_init env cfg (a_input_ids a) of
           (evs, Inl e) \<Rightarrow> Some ([], Some e)
         | (evs, Inr g) \<Rightarrow> stream_loop env cfg a st g)"

section \<open>Runs of the generator and of the wrapper\<close>

text \<open>How the generator ends after \<open>k\<close> further yields: what its next resumption does.\<close>

fun gen_end :: "collaborators \<Rightarrow> gen_config \<Rightarrow> gen_state \<Rightarrow> nat \<Rightarrow> gen_result" where
  "gen_end env cfg s 0 = generate_step_next env cfg s"
| "gen_end env cfg s (Suc k) =
     (case generate_step_next env cfg s of
        Yield x s' \<Rightarrow> gen_end env cfg s' k
      | StopIteration \<Rightarrow> StopIteration
      | Raise e \<Rightarrow> Raise e)"

text \<open>One pass through the loop body of \<^verbatim>\<open>stream_generate\<close> for a token that does not
  stop the generation.\<close>

definition emit :: "'d stream_args \<Rightarrow> 'd stream_state \<Rightarrow> token \<times> logits \<Rightarrow> 'd stream_state" where
  "emit a st x =
     (let st = push_token a (bind_item a st x) (fst x)
      in case make_result a st of
           Inl e \<Rightarrow> st
         | Inr r \<Rightarrow> st\<lparr> l_yielded := l_yielded st @ [r] \<rparr>)"

text \<open>
  The per-step records for a run of items, written out: starting from detokenizer state
  \<open>d\<close> with \<open>n\<close> tokens emitted before, each item is pushed into the detokenizer and
  surfaces with the segment the detokenizer reveals for it.
\<close>

fun step_records ::
  "'d stream_args \<Rightarrow> 'd \<Rightarrow> nat \<Rightarrow> (token \<times> logits) list \<Rightarrow> generation_result list"
where
  "step_records a d n [] = []"
| "step_records a d n (x # xs) =
     (let d' = d_add_token (a_detokenizer a) (fst x) (a_skip_special_token_ids a) d
      in \<lparr> r_text = d_last_segment (a_detokenizer a) d',
           r_token = fst x, r_logprobs = snd x,
           r_prompt_tokens = length (a_input_ids a),
           r_generation_tokens = Suc n,
           r_prompt_tps = real (length (a_input_ids a)) / a_prompt_time a \<rparr>
         # step_records a d' (Suc n) xs)"

text \<open>The detokenizer after a run of tokens has been pushed into it.\<close>

definition detokenized :: "'d stream_args \<Rightarrow> 'd \<Rightarrow> token list \<Rightarrow> 'd" where
  "detokenized a d ts =
     fold (\<lambda>t d. d_add_token (a_detokenizer a) t (a_skip_special_token_ids a) d) ts d"

text \<open>The index \<^verbatim>\<open>enumerate\<close> hands out next, and the invariant that \<open>prompt_tps\<close> is
  bound, to the measured value, as soon as \<open>n\<close> is.\<close>

definition next_index :: "'d stream_state \<Rightarrow> nat" where
  "next_index st = (case l_n st of None \<Rightarrow> 0 | Some m \<Rightarrow> Suc m)"

definition tps_ok :: "'d stream_args \<Rightarrow> 'd stream_state \<Rightarrow> bool" where
  "tps_ok a st = (l_n st = None \<or>
      l_prompt_tps st = Some (real (length (a_input_ids a)) / a_prompt_time a))"

section \<open>Example inputs\<close>

text \<open>Concrete collaborators and arguments on which the theorems below are exercised:
  a model whose logits are the same four entries at every position, and a processor that
  fails under every tensor representation.\<close>

definition env0 :: collaborators where
  "env0 = \<lparr> forward = (\<lambda>h. [0, 1, 5, 2]), logsumexp = (\<lambda>l. 0),
            top_p_sampling = (\<lambda>_ _ _ _. 0), categorical = (\<lambda>_ _. 0) \<rparr>"

definition cfg0 :: "pyval \<Rightarrow> gen_config" where
  "cfg0 rp = \<lparr> max_tokens = 5, temperature = 0, repetition_penalty = rp,
     repetition_context_size = Some 20, top_p = 1, logit_bias = [] \<rparr>"

definition failing_processor :: "(nat, nat) processor" where
  "failing_processor =
     \<lparr> proc_repr = ''Processor'', accepts_add_special_tokens = True, accepts_audio = False,
       process = (\<lambda>args. if arg_return_tensors args = ''pt''
                          then Inl (RuntimeError ''torch is not installed'')
                          else Inl (TypeError ''cannot convert to mlx array'')) \<rparr>"

text \<open>The scenario of a context of size two: a prompt ending in \<open>3, 9\<close> and a model whose
  logits favour token \<open>3\<close> also after the penalty; \<open>g_scenario\<close> is the generator's state
  after the prefill.\<close>

definition env_scenario :: collaborators where
  "env_scenario = \<lparr> forward = (\<lambda>h. [0, 0, 0, 8, 0, 0, 0, 0, 0, 6]), logsumexp = (\<lambda>l. 0),
            top_p_sampling = (\<lambda>_ _ _ _. 0), categorical = (\<lambda>_ _. 0) \<rparr>"

definition cfg_scenario :: gen_config where
  "cfg_scenario = \<lparr> max_tokens = 5, temperature = 0, repetition_penalty = PFloat (5 / 4),
     repetition_context_size = Some 2, top_p = 1, logit_bias = [] \<rparr>"

definition g_scenario :: gen_state where
  "g_scenario = \<lparr> g_n = 0, g_y = 3, g_logprobs = [0, 0, 0, 8, 0, 0, 0, 0, 0, 6],
         g_repetition_context = [3, 9], g_fed = [1, 3, 9], g_draws = 1 \<rparr>"

text \<open>A detokenizer that records the tokens pushed into it and reveals one letter per
  token; a session with a prompt of length ten; and a model that produces the tokens
  \<open>1, 2, 7\<close> after a prompt of length three, with \<open>7\<close> the only EOS id.\<close>

definition det0 :: "(token list \<times> string) detokenizer" where
  "det0 = \<lparr> d_reset = (\<lambda>d. ([], [])),
            d_add_token = (\<lambda>t skip d. (fst d @ [t], if t \<in> set skip then [] else ''w'')),
            d_last_segment = snd,
            d_finalize = (\<lambda>d. (fst d, [])) \<rparr>"

definition args0 :: "(token list \<times> string) stream_args" where
  "args0 = \<lparr> a_stopping_criteria = StoppingCriteria (IdList [7]) None, a_detokenizer = det0,
             a_skip_special_token_ids = [], a_prompt_time = 2,
             a_input_ids = [1, 2, 3, 4, 5, 6, 1, 2, 3, 4] \<rparr>"

definition g_init0 :: gen_state where
  "g_init0 = \<lparr> g_n = 0, g_y = 2, g_logprobs = [0, 1, 5, 2],
               g_repetition_context = [1, 2, 3, 4, 5, 6, 1, 2, 3, 4],
               g_fed = [1, 2, 3, 4, 5, 6, 1, 2, 3, 4], g_draws = 1 \<rparr>"

definition env_stop :: collaborators where
  "env_stop = \<lparr> forward = (\<lambda>h. if length h = 3 then [0, 1, 0, 0, 0, 0, 0, 0]
                                else if length h = 4 then [0, 0, 1, 0, 0, 0, 0, 0]
                                else [0, 0, 0, 0, 0, 0, 0, 1]),
                logsumexp = (\<lambda>l. 0),
                top_p_sampling = (\<lambda>_ _ _ _. 0), categorical = (\<lambda>_ _. 0) \<rparr>"

definition args_stop :: "(token list \<times> string) stream_args" where
  "args_stop = \<lparr> a_stopping_criteria = StoppingCriteria (IdList [7]) None, a_detokenizer = det0,
             a_skip_special_token_ids = [], a_prompt_time = 2,
             a_input_ids = [4, 5, 6] \<rparr>"

definition g_init_stop :: gen_state where
  "g_init_stop = \<lparr> g_n = 0, g_y = 1, g_logprobs = [0, 1, 0, 0, 0, 0, 0, 0],
               g_repetition_context = [4, 5, 6], g_fed = [4, 5, 6], g_draws = 1 \<rparr>"

section \<open>Properties of the repetition penalty\<close>

lemma fold_update_length:
  "length (fold (\<lambda>(i, v) acc. acc[k i := v]) ps acc) = length acc"
  by (induction ps arbitrary: acc) (auto split: prod.splits)

lemma fold_update_nth:
  "j < length acc \<Longrightarrow>
   fold (\<lambda>(i, v) a. a[k i := v]) (zip idx (map (\<lambda>i. h (k i)) idx)) acc ! j =
     (if j \<in> k ` set idx then h j else acc ! j)"
proof (induction idx arbitrary: acc)
  case Nil
  then show ?case by simp
next
  case (Cons i idx)
  then show ?case by (auto simp: nth_list_update)
qed

lemma fold_update_same:
  "fold (\<lambda>(i, v) a. a[k i := v]) (zip idx (map (\<lambda>i. l ! k i) idx)) l = l"
  by (induction idx) simp_all

lemma scatter_length: "length (scatter l idx vs) = length l"
  by (simp add: scatter_def fold_update_length)

lemma apply_repetition_penalty_length:
  "length (apply_repetition_penalty l ctx p) = length l"
  by (simp add: apply_repetition_penalty_def Let_def scatter_length)

lemma norm_index_image:
  assumes "\<forall>t\<in>set ctx. 0 \<le> t \<and> t < int V"
  shows "(j \<in> norm_index V ` set ctx) = (int j \<in> set ctx)"
proof
  assume "j \<in> norm_index V ` set ctx"
  then obtain t where "t \<in> set ctx" "j = norm_index V t" by auto
  with assms show "int j \<in> set ctx" by (auto simp: norm_index_def)
next
  assume "int j \<in> set ctx"
  then have "norm_index V (int j) \<in> norm_index V ` set ctx" by (rule imageI)
  then show "j \<in> norm_index V ` set ctx" by (simp add: norm_index_def)
qed

lemma apply_repetition_penalty_unfold:
  "apply_repetition_penalty l ctx p =
     fold (\<lambda>(i, v) a. a[norm_index (length l) i := v])
       (zip ctx (map (\<lambda>i. (\<lambda>n. if l ! n < 0 then l ! n * p else l ! n / p)
                             (norm_index (length l) i)) ctx)) l"
  by (cases ctx) (simp_all add: apply_repetition_penalty_def scatter_def gather_def Let_def comp_def)

lemma apply_repetition_penalty_nth:
  assumes "\<forall>t\<in>set ctx. 0 \<le> t \<and> t < int (length l)" "j < length l"
  shows "apply_repetition_penalty l ctx p ! j =
          (if int j \<in> set ctx then (if l ! j < 0 then l ! j * p else l ! j / p) else l ! j)"
  unfolding apply_repetition_penalty_unfold
  using fold_update_nth[OF assms(2), of "norm_index (length l)" ctx
          "\<lambda>n. if l ! n < 0 then l ! n * p else l ! n / p"]
        norm_index_image[OF assms(1), of j]
  by simp

lemma apply_repetition_penalty_one: "apply_repetition_penalty l ctx 1 = l"
proof -
  have "(\<lambda>i. if l ! norm_index (length l) i < 0 then l ! norm_index (length l) i * 1
             else l ! norm_index (length l) i / 1) = (\<lambda>i. l ! norm_index (length l) i)"
    by (rule ext) simp
  then show ?thesis
    unfolding apply_repetition_penalty_unfold
    using fold_update_same[of "norm_index (length l)" ctx l] by simp
qed

text \<open>
  Claim C6. For a penalty factor \<open>p > 0\<close> and a context of valid token ids,
  \<^verbatim>\<open>apply_repetition_penalty\<close> changes exactly the logits whose index occurs in the
  context: a negative logit is multiplied by \<open>p\<close>, any other is divided by \<open>p\<close> (once,
  however often the id occurs); every other logit is unchanged, and with an empty
  context the logits are returned as they are.
\<close>

theorem apply_repetition_penalty_scales_context:
  assumes "0 < p" and "\<forall>t\<in>set ctx. 0 \<le> t \<and> t < int (length l)"
  shows "length (apply_repetition_penalty l ctx p) = length l
       \<and> (\<forall>j < length l. apply_repetition_penalty l ctx p ! j =
            (if int j \<in> set ctx then (if l ! j < 0 then l ! j * p else l ! j / p)
             else l ! j))
       \<and> apply_repetition_penalty l [] p = l"
  using assms(2)
  by (simp add: apply_repetition_penalty_length apply_repetition_penalty_nth)
     (simp add: apply_repetition_penalty_def)

theorem apply_repetition_penalty_scales_context_witness:
  "apply_repetition_penalty [1, - 2, 3, 0] [1, 2, 1] 2 ! 0 = 1
   \<and> apply_repetition_penalty [1, - 2, 3, 0] [1, 2, 1] 2 ! 1 = - 4
   \<and> apply_repetition_penalty [1, - 2, 3, 0] [1, 2, 1] 2 ! 2 = 3 / 2
   \<and> apply_repetition_penalty [1, - 2, 3, 0] [] 2 = [1, - 2, 3, 0]"
  using apply_repetition_penalty_scales_context [of 2 "[1, 2, 1]" "[1, - 2, 3, 0]"]
  by simp

text \<open>
  Claim C7. With penalty \<open>1\<close> and a non-empty context of valid token ids,
  \<^verbatim>\<open>apply_repetition_penalty\<close> returns the logits it was given.
\<close>

theorem apply_repetition_penalty_one_identity:
  assumes "ctx \<noteq> []" and "\<forall>t\<in>set ctx. 0 \<le> t \<and> t < int (length l)"
  shows "apply_repetition_penalty l ctx 1 = l"
  by (rule apply_repetition_penalty_one)

theorem apply_repetition_penalty_one_identity_witness:
  "apply_repetition_penalty [1, - 2, 3, 0] [1, 3, 1] 1 = [1, - 2, 3, 0]"
  using apply_repetition_penalty_one_identity [of "[1, 3, 1]" "[1, - 2, 3, 0]"]
  by simp


section \<open>Properties of the sampler\<close>

lemma argmax_from_spec:
  assumes "length pre = i" "best < i" "pre ! best = bv"
    "\<forall>j<i. pre ! j \<le> bv" "\<forall>j<best. pre ! j < bv"
  shows "argmax_from best bv i xs < length (pre @ xs)
       \<and> (\<forall>j<length (pre @ xs). (pre @ xs) ! j \<le> (pre @ xs) ! argmax_from best bv i xs)
       \<and> (\<forall>j<argmax_from best bv i xs. (pre @ xs) ! j < (pre @ xs) ! argmax_from best bv i xs)"
  using assms
proof (induction xs arbitrary: pre i best bv)
  case Nil
  then show ?case by simp
next
  case (Cons x xs)
  show ?case
  proof (cases "bv < x")
    case True
    have "argmax_from i x (Suc i) xs < length ((pre @ [x]) @ xs)
       \<and> (\<forall>j<length ((pre @ [x]) @ xs). ((pre @ [x]) @ xs) ! j \<le> ((pre @ [x]) @ xs) ! argmax_from i x (Suc i) xs)
       \<and> (\<forall>j<argmax_from i x (Suc i) xs. ((pre @ [x]) @ xs) ! j < ((pre @ [x]) @ xs) ! argmax_from i x (Suc i) xs)"
    proof (rule Cons.IH)
      show "length (pre @ [x]) = Suc i" using Cons.prems by simp
      show "i < Suc i" by simp
      show "(pre @ [x]) ! i = x" using Cons.prems by (simp add: nth_append)
      show "\<forall>j<Suc i. (pre @ [x]) ! j \<le> x"
        using Cons.prems True by (auto simp: nth_append less_Suc_eq intro: less_imp_le order_trans)
      show "\<forall>j<i. (pre @ [x]) ! j < x"
        using Cons.prems True by (auto simp: nth_append intro: le_less_trans)
    qed
    with True show ?thesis by simp
  next
    case False
    have "argmax_from best bv (Suc i) xs < length ((pre @ [x]) @ xs)
       \<and> (\<forall>j<length ((pre @ [x]) @ xs). ((pre @ [x]) @ xs) ! j \<le> ((pre @ [x]) @ xs) ! argmax_from best bv (Suc i) xs)
       \<and> (\<forall>j<argmax_from best bv (Suc i) xs. ((pre @ [x]) @ xs) ! j < ((pre @ [x]) @ xs) ! argmax_from best bv (Suc i) xs)"
    proof (rule Cons.IH)
      show "length (pre @ [x]) = Suc i" using Cons.prems by simp
      show "best < Suc i" using Cons.prems by simp
      show "(pre @ [x]) ! best = bv" using Cons.prems by (simp add: nth_append)
      show "\<forall>j<Suc i. (pre @ [x]) ! j \<le> bv"
        using Cons.prems False by (auto simp: nth_append less_Suc_eq)
      show "\<forall>j<best. (pre @ [x]) ! j < bv"
        using Cons.prems by (auto simp: nth_append)
    qed
    with False show ?thesis by simp
  qed
qed

lemma argmax_first_maximum:
  assumes "xs \<noteq> []"
  shows "\<exists>i. argmax xs = Inr i \<and> i < length xs
           \<and> (\<forall>j<length xs. xs ! j \<le> xs ! i) \<and> (\<forall>j<i. xs ! j < xs ! i)"
proof -
  from assms obtain x rest where xs: "xs = x # rest" by (cases xs) auto
  have "argmax_from 0 x 1 rest < length ([x] @ rest)
       \<and> (\<forall>j<length ([x] @ rest). ([x] @ rest) ! j \<le> ([x] @ rest) ! argmax_from 0 x 1 rest)
       \<and> (\<forall>j<argmax_from 0 x 1 rest. ([x] @ rest) ! j < ([x] @ rest) ! argmax_from 0 x 1 rest)"
    by (rule argmax_from_spec) simp_all
  then show ?thesis by (simp add: xs argmax_def)
qed

lemma biased_length: "length (biased cfg l) = length l"
  by (simp add: biased_def add_logit_bias_def Let_def scatter_length)

text \<open>
  Claim C8. With \<open>temperature = 0\<close> and a non-empty logits vector, \<^verbatim>\<open>sample\<close> returns the
  index of a maximal entry of the bias-adjusted logits, and the first such index: every
  entry before it is strictly smaller. The token does not depend on the random state or
  on any other collaborator, so the same logits give the same token on every call.
\<close>

theorem greedy_sample_is_first_argmax:
  assumes "temperature cfg = 0" and "l \<noteq> []"
  shows "\<exists>i logprobs. sample env cfg draws l = Inr (int i, logprobs)
           \<and> i < length (biased cfg l)
           \<and> (\<forall>j<length (biased cfg l). biased cfg l ! j \<le> biased cfg l ! i)
           \<and> (\<forall>j<i. biased cfg l ! j < biased cfg l ! i)
           \<and> (\<forall>env' draws'. map_sum id fst (sample env' cfg draws' l) = Inr (int i))"
proof -
  have "biased cfg l \<noteq> []" using assms(2) biased_length[of cfg l] by auto
  from argmax_first_maximum[OF this] obtain i where
    i: "argmax (biased cfg l) = Inr i" "i < length (biased cfg l)"
       "\<forall>j<length (biased cfg l). biased cfg l ! j \<le> biased cfg l ! i"
       "\<forall>j<i. biased cfg l ! j < biased cfg l ! i" by blast
  have "\<And>env' draws'. sample env' cfg draws' l =
          Inr (int i, map (\<lambda>x. x - logsumexp env' (biased cfg l)) (biased cfg l))"
    using assms(1) i(1) by (simp add: sample_def Let_def)
  then show ?thesis using i by simp
qed

theorem greedy_sample_is_first_argmax_witness:
  "sample env0 ((cfg0 PNone)\<lparr> logit_bias := [(0, 2)] \<rparr>) 0 [1, 3, 3, 2]
     = Inr (0, [3, 3, 3, 2])"
  using greedy_sample_is_first_argmax [of "(cfg0 PNone)\<lparr> logit_bias := [(0, 2)] \<rparr>"
          "[1, 3, 3, 2]" env0 0]
  by (simp add: sample_def biased_def add_logit_bias_def scatter_def gather_def norm_index_def
        argmax_def Let_def cfg0_def env0_def)

section \<open>Properties of the stopping criteria\<close>

text \<open>
  Claim C9. \<^verbatim>\<open>reset(ids)\<close> leaves the criteria with exactly the given ids (a single int
  becomes a one-element list), whatever the set was before; \<^verbatim>\<open>reset()\<close> without ids
  leaves it with the EOS ids configured on the tokenizer the criteria refers to.
  Afterwards a token stops the generation iff it is one of these ids.
\<close>

theorem reset_replaces_eos_ids:
  "(\<exists>sc'. reset (Some given) sc = Inr sc' \<and> eos_token_ids sc' = as_id_list given
            \<and> tokenizer sc' = tokenizer sc
            \<and> (\<forall>t. is_stop sc' t = (t \<in> set (as_id_list given))))
   \<and> (tokenizer sc = Some tk \<longrightarrow>
        (\<exists>sc'. reset None sc = Inr sc' \<and> eos_token_ids sc' = as_id_list (tk_eos_token_ids tk)
            \<and> tokenizer sc' = tokenizer sc
            \<and> (\<forall>t. is_stop sc' t = (t \<in> set (as_id_list (tk_eos_token_ids tk))))))"
  by (auto simp: reset_def is_stop_def Let_def)

theorem reset_replaces_eos_ids_witness:
  "reset None (StoppingCriteria (IdList [1, 2]) (Some \<lparr> tk_eos_token_ids = IdInt 7 \<rparr>))
     = Inr \<lparr> eos_token_ids = [7], tokenizer = Some \<lparr> tk_eos_token_ids = IdInt 7 \<rparr> \<rparr>
   \<and> reset (Some (IdList [3, 4])) (StoppingCriteria (IdList [1, 2]) None)
     = Inr \<lparr> eos_token_ids = [3, 4], tokenizer = None \<rparr>"
  using reset_replaces_eos_ids [of "IdList [3, 4]" "StoppingCriteria (IdList [1, 2]) None"]
        reset_replaces_eos_ids [of "IdList [3, 4]"
          "StoppingCriteria (IdList [1, 2]) (Some \<lparr> tk_eos_token_ids = IdInt 7 \<rparr>)"
          "\<lparr> tk_eos_token_ids = IdInt 7 \<rparr>"]
  by (simp add: StoppingCriteria_def reset_def)

section \<open>Properties of the penalty guard\<close>

lemma generate_step_init_guard:
  "check_repetition_penalty (repetition_penalty cfg) = Inl e \<Longrightarrow>
   generate_step_init env cfg input_ids = ([], Inl e)"
  by (simp add: generate_step_init_def)

text \<open>
  Claim C3, as the code has it. The guard of \<^verbatim>\<open>generate_step\<close> raises \<^verbatim>\<open>ValueError\<close> for
  every negative float, for every non-zero int and for \<^verbatim>\<open>True\<close>; when the guard raises,
  the generator has created no cache and run no forward pass. Every falsy value
  (\<^verbatim>\<open>None\<close>, zero, \<^verbatim>\<open>False\<close>, the empty string) passes the guard, and under a falsy value
  a decode step hands the model's logits to the sampler as they are and appends nothing
  to the repetition context. Every positive float passes the guard, among them \<open>1.0\<close>,
  under which the penalty filter returns the logits unchanged.
\<close>

theorem repetition_penalty_guard:
  "(\<forall>x. x < 0 \<longrightarrow> (\<exists>m. check_repetition_penalty (PFloat x) = Inl (ValueError m)))
   \<and> (\<forall>i. i \<noteq> 0 \<longrightarrow> (\<exists>m. check_repetition_penalty (PInt i) = Inl (ValueError m)))
   \<and> (\<exists>m. check_repetition_penalty (PBool True) = Inl (ValueError m))
   \<and> (\<forall>e. check_repetition_penalty (repetition_penalty cfg) = Inl e \<longrightarrow>
          generate_step_init env cfg input_ids = ([], Inl e))
   \<and> (\<forall>rp. \<not> truthy rp \<longrightarrow> check_repetition_penalty rp = Inr ())
   \<and> (\<forall>s. \<not> truthy (repetition_penalty cfg) \<longrightarrow>
          inner_step env cfg s =
            (case sample env cfg (g_draws s) (forward env (g_fed s @ [g_y s])) of
               Inl e \<Rightarrow> Inl e
             | Inr (y, logprobs) \<Rightarrow>
                 Inr (y, logprobs,
                      s\<lparr> g_repetition_context :=
                           trim_context True (repetition_context_size cfg) (g_repetition_context s),
                         g_fed := g_fed s @ [g_y s], g_draws := Suc (g_draws s) \<rparr>)))
   \<and> (\<forall>x. 0 < x \<longrightarrow> check_repetition_penalty (PFloat x) = Inr ())
   \<and> check_repetition_penalty (PFloat 1) = Inr ()
   \<and> (\<forall>l ctx. apply_repetition_penalty l ctx (as_real (PFloat 1)) = l)"
  by (auto simp: check_repetition_penalty_def generate_step_init_guard apply_repetition_penalty_one
        inner_step_def Let_def split: sum.splits prod.splits)

theorem repetition_penalty_guard_witness:
  "generate_step_init env0 (cfg0 (PFloat (- 2))) [1, 2]
     = ([], Inl (ValueError ''repetition_penalty must be a non-negative float, got ''))
   \<and> generate_step_init env0 (cfg0 (PInt 3)) [1, 2]
     = ([], Inl (ValueError ''repetition_penalty must be a non-negative float, got ''))
   \<and> check_repetition_penalty PNone = Inr ()
   \<and> inner_step env0 (cfg0 PNone) g_init0
       = Inr (2, [0, 1, 5, 2],
              g_init0\<lparr> g_fed := [1, 2, 3, 4, 5, 6, 1, 2, 3, 4, 2], g_draws := 2 \<rparr>)
   \<and> apply_repetition_penalty [1, - 2, 3] [1, 2] (as_real (PFloat 1)) = [1, - 2, 3]"
  using repetition_penalty_guard [of "cfg0 (PFloat (- 2))" env0 "[1, 2]"]
        repetition_penalty_guard [of "cfg0 (PInt 3)" env0 "[1, 2]"]
        repetition_penalty_guard [of "cfg0 PNone" env0 "[1, 2]"]
  by (simp add: cfg0_def check_repetition_penalty_def env0_def g_init0_def sample_def biased_def
        argmax_def trim_context_def Let_def)

text \<open>
  The claim as stated fails: the int \<open>1\<close> is not accepted, the guard rejects it as it rejects
  every number that is not a float; and a non-empty string, which is not a number, ends
  in the \<^verbatim>\<open>TypeError\<close> of the comparison, not in the guard's \<^verbatim>\<open>ValueError\<close>.
\<close>

theorem repetition_penalty_guard_counterexample:
  "generate_step_init env0 (cfg0 (PInt 1)) [1, 2]
     = ([], Inl (ValueError ''repetition_penalty must be a non-negative float, got ''))
   \<and> generate_step_init env0 (cfg0 (PStr ''high'')) [1, 2]
     = ([], Inl (TypeError ''< not supported between instances of str and int''))"
  by (simp add: generate_step_init_def check_repetition_penalty_def cfg0_def)

section \<open>Properties of input processing\<close>

text \<open>
  Claim C4, as the code has it. When the first call of \<^verbatim>\<open>process_inputs\<close> raises and the
  requested representation is not \<^verbatim>\<open>pt\<close>, a warning with the text of the primary error
  is printed and the call is repeated exactly once with \<^verbatim>\<open>return_tensors = pt\<close>; a
  successful retry is returned, a failing retry raises \<^verbatim>\<open>ValueError\<close> whose message is
  the fixed prefix followed by the text of the fallback error. When the requested
  representation is \<^verbatim>\<open>pt\<close> already, nothing is printed, there is no retry and the
  message of the \<^verbatim>\<open>ValueError\<close> is the prefix followed by the text of the primary error.
  (The chain of \<^verbatim>\<open>__context__\<close> links Python attaches to the raised exception is not
  part of the model; the statement is about the message and the printed output.)
\<close>

theorem fallback_retries_once_with_pt:
  assumes "process_inputs processor prompts images audio add_special_tokens return_tensors = Inl e"
    and "is_Exception e"
  shows "(return_tensors \<noteq> ''pt'' \<longrightarrow>
            fo_attempts (process_inputs_with_fallback processor prompts images audio
                           add_special_tokens return_tensors) = [return_tensors, ''pt'']
          \<and> fo_printed (process_inputs_with_fallback processor prompts images audio
                           add_special_tokens return_tensors)
               = [''Warning: Failed to process inputs with error: '' @ str_of e @
                  ''. Trying to process inputs with return_tensors=pt'']
          \<and> (\<forall>r. process_inputs processor prompts images audio add_special_tokens ''pt'' = Inr r \<longrightarrow>
                fo_result (process_inputs_with_fallback processor prompts images audio
                             add_special_tokens return_tensors) = Inr r)
          \<and> (\<forall>fallback_error.
                process_inputs processor prompts images audio add_special_tokens ''pt''
                  = Inl fallback_error \<and> is_Exception fallback_error \<longrightarrow>
                fo_result (process_inputs_with_fallback processor prompts images audio
                             add_special_tokens return_tensors)
                  = Inl (ValueError (''Failed to process inputs with error: '' @ str_of fallback_error))))
       \<and> (return_tensors = ''pt'' \<longrightarrow>
            fo_attempts (process_inputs_with_fallback processor prompts images audio
                           add_special_tokens return_tensors) = [''pt'']
          \<and> fo_printed (process_inputs_with_fallback processor prompts images audio
                           add_special_tokens return_tensors) = []
          \<and> fo_result (process_inputs_with_fallback processor prompts images audio
                             add_special_tokens return_tensors)
                  = Inl (ValueError (''Failed to process inputs with error: '' @ str_of e)))"
  using assms
  by (auto simp: process_inputs_with_fallback_def Let_def split: sum.splits)

theorem fallback_retries_once_with_pt_witness:
  "fo_attempts (process_inputs_with_fallback failing_processor ''hi'' None None False ''mlx'')
     = [''mlx'', ''pt'']
   \<and> fo_printed (process_inputs_with_fallback failing_processor ''hi'' None None False ''mlx'')
     = [''Warning: Failed to process inputs with error: cannot convert to mlx array. Trying to process inputs with return_tensors=pt'']
   \<and> fo_result (process_inputs_with_fallback failing_processor ''hi'' None None False ''mlx'')
     = Inl (ValueError ''Failed to process inputs with error: torch is not installed'')
   \<and> fo_attempts (process_inputs_with_fallback failing_processor ''hi'' None None False ''pt'')
     = [''pt'']
   \<and> fo_printed (process_inputs_with_fallback failing_processor ''hi'' None None False ''pt'') = []"
  using fallback_retries_once_with_pt [of failing_processor "''hi''" None None False "''mlx''"
          "TypeError ''cannot convert to mlx array''"]
        fallback_retries_once_with_pt [of failing_processor "''hi''" None None False "''pt''"
          "RuntimeError ''torch is not installed''"]
  by (simp add: process_inputs_def failing_processor_def)

text \<open>
  The claim as stated fails: after two failures the message is built from the fallback
  error and does not contain the text of the primary error, and a call that asked for
  \<^verbatim>\<open>pt\<close> is not retried.
\<close>

theorem fallback_message_counterexample:
  "fo_result (process_inputs_with_fallback failing_processor ''hi'' None None False ''mlx'')
     = Inl (ValueError ''Failed to process inputs with error: torch is not installed'')
   \<and> \<not> contains ''Failed to process inputs with error: torch is not installed''
                  ''cannot convert to mlx array''
   \<and> fo_attempts (process_inputs_with_fallback failing_processor ''hi'' None None False ''pt'')
     = [''pt'']"
  by (simp add: process_inputs_with_fallback_def process_inputs_def failing_processor_def
        contains_def Let_def)


section \<open>Properties of the repetition context\<close>

lemma py_slice_last_length:
  "0 < k \<Longrightarrow> int (length (py_slice_from (- k) ctx)) \<le> k"
  by (auto simp: py_slice_from_def)

lemma trim_context_bound:
  "0 < k \<Longrightarrow> int (length (trim_context b (Some k) ctx)) \<le> k"
  using py_slice_last_length[of k ctx] by (auto simp: trim_context_def)

lemma generate_step_init_context:
  "generate_step_init env cfg input_ids = (evs, Inr g) \<Longrightarrow>
   g_repetition_context g = trim_context False (repetition_context_size cfg) input_ids"
  by (auto simp: generate_step_init_def Let_def split: sum.splits prod.splits)

lemma inner_step_context:
  "inner_step env cfg s = Inr (y, lp, s') \<Longrightarrow>
   g_repetition_context s' =
     trim_context True (repetition_context_size cfg)
       (if truthy (repetition_penalty cfg) then g_repetition_context s @ [y]
        else g_repetition_context s)"
  by (auto simp: inner_step_def Let_def split: sum.splits prod.splits)

lemma generate_step_next_context:
  "generate_step_next env cfg s = Yield x s' \<Longrightarrow>
   g_repetition_context s' =
     trim_context True (repetition_context_size cfg)
       (if truthy (repetition_penalty cfg) then g_repetition_context s @ [g_y s']
        else g_repetition_context s)"
  by (auto simp: generate_step_next_def split: if_splits sum.splits prod.splits
           dest!: inner_step_context)

lemma gen_states_context_bound:
  assumes "repetition_context_size cfg = Some k" "0 < k"
    "int (length (g_repetition_context s)) \<le> k"
  shows "\<forall>s'\<in>set (gen_states env cfg s m). int (length (g_repetition_context s')) \<le> k"
  using assms(3)
proof (induction m arbitrary: s)
  case 0
  then show ?case by simp
next
  case (Suc m)
  show ?case
  proof (cases "generate_step_next env cfg s")
    case (Yield x s')
    have "int (length (g_repetition_context s')) \<le> k"
      using generate_step_next_context[OF Yield] trim_context_bound[OF assms(2)] assms(1)
      by simp
    from Suc.IH[OF this] Suc.prems Yield show ?thesis by simp
  next
    case StopIteration
    with Suc.prems show ?thesis by simp
  next
    case (Raise e)
    with Suc.prems show ?thesis by simp
  qed
qed

text \<open>
  Claim C5. With \<^verbatim>\<open>repetition_context_size\<close> set (an int that is not zero, which the
  code takes as set; a size is positive), the repetition context is never longer than the
  size in any state in which the generator applies the penalty. With a penalty
  configured, a step appends the sampled token and, once the context is full, keeps the
  last \<open>size\<close> entries: with size \<open>2\<close> and history \<open>[3, 9]\<close>, sampling \<open>3\<close> leaves \<open>[9, 3]\<close>
  for the next penalty application.
\<close>

theorem repetition_context_bounded_fifo:
  assumes "repetition_context_size cfg = Some k" and "0 < k"
    and "generate_step_init env cfg input_ids = (evs, Inr g0)"
  shows "(\<forall>s\<in>set (gen_states env cfg g0 m). int (length (g_repetition_context s)) \<le> k)
       \<and> (\<forall>s x s'. truthy (repetition_penalty cfg) \<and> generate_step_next env cfg s = Yield x s'
             \<longrightarrow> g_repetition_context s' =
                    (if int (length (g_repetition_context s)) < k
                     then g_repetition_context s @ [g_y s']
                     else py_slice_from (- k) (g_repetition_context s @ [g_y s'])))
       \<and> (\<forall>s x s'. k = 2 \<and> truthy (repetition_penalty cfg)
             \<and> g_repetition_context s = [3, 9]
             \<and> generate_step_next env cfg s = Yield x s' \<and> g_y s' = 3
             \<longrightarrow> g_repetition_context s' = [9, 3])"
proof (intro conjI allI impI)
  have "int (length (g_repetition_context g0)) \<le> k"
    using generate_step_init_context[OF assms(3)] trim_context_bound[OF assms(2)] assms(1)
    by simp
  from gen_states_context_bound[OF assms(1,2) this]
  show "\<forall>s\<in>set (gen_states env cfg g0 m). int (length (g_repetition_context s)) \<le> k" .
next
  fix s x s'
  assume "truthy (repetition_penalty cfg) \<and> generate_step_next env cfg s = Yield x s'"
  then show "g_repetition_context s' =
                    (if int (length (g_repetition_context s)) < k
                     then g_repetition_context s @ [g_y s']
                     else py_slice_from (- k) (g_repetition_context s @ [g_y s']))"
    using generate_step_next_context[of env cfg s x s'] assms(1,2)
    by (auto simp: trim_context_def)
next
  fix s x s'
  assume "k = 2 \<and> truthy (repetition_penalty cfg) \<and> g_repetition_context s = [3, 9]
             \<and> generate_step_next env cfg s = Yield x s' \<and> g_y s' = 3"
  then show "g_repetition_context s' = [9, 3]"
    using generate_step_next_context[of env cfg s x s'] assms(1)
    by (auto simp: trim_context_def py_slice_from_def)
qed

lemma scenario_init:
  "generate_step_init env_scenario cfg_scenario [1, 3, 9] = ([CacheCreated, ForwardPass], Inr g_scenario)"
  by (simp add: generate_step_init_def check_repetition_penalty_def cfg_scenario_def env_scenario_def
        trim_context_def py_slice_from_def sample_def biased_def argmax_def Let_def g_scenario_def)

lemma scenario_next:
  "\<exists>x s'. generate_step_next env_scenario cfg_scenario g_scenario = Yield x s' \<and> g_y s' = 3"
  by (simp add: generate_step_next_def inner_step_def cfg_scenario_def env_scenario_def
        trim_context_def py_slice_from_def sample_def biased_def argmax_def Let_def g_scenario_def
        apply_repetition_penalty_def gather_def scatter_def norm_index_def)

theorem repetition_context_bounded_fifo_witness:
  "generate_step_init env_scenario cfg_scenario [1, 3, 9] = ([CacheCreated, ForwardPass], Inr g_scenario)
   \<and> g_repetition_context g_scenario = [3, 9]
   \<and> (\<exists>x s'. generate_step_next env_scenario cfg_scenario g_scenario = Yield x s' \<and> g_y s' = 3
         \<and> g_repetition_context s' = [9, 3])
   \<and> list_all (\<lambda>s. int (length (g_repetition_context s)) \<le> 2)
         (gen_states env_scenario cfg_scenario g_scenario 3)"
proof -
  have size: "repetition_context_size cfg_scenario = Some 2" by (simp add: cfg_scenario_def)
  have pen: "truthy (repetition_penalty cfg_scenario)" by (simp add: cfg_scenario_def)
  have ctx: "g_repetition_context g_scenario = [3, 9]" by (simp add: g_scenario_def)
  have two: "(0::int) < 2" by simp
  note bounded = repetition_context_bounded_fifo [OF size two scenario_init, of 3]
  from scenario_next obtain x s' where
    nxt: "generate_step_next env_scenario cfg_scenario g_scenario = Yield x s'" "g_y s' = 3"
    by blast
  have "g_repetition_context s' = [9, 3]"
    using bounded pen ctx nxt by blast
  with nxt bounded scenario_init ctx show ?thesis
    unfolding list_all_iff by blast
qed


section \<open>Properties of the generation session\<close>

lemma make_result_after_bind:
  assumes "tps_ok a st"
  shows "make_result a (push_token a (bind_item a st x) (fst x)) =
     Inr \<lparr> r_text = d_last_segment (a_detokenizer a)
                     (d_add_token (a_detokenizer a) (fst x) (a_skip_special_token_ids a)
                        (l_detokenizer st)),
           r_token = fst x, r_logprobs = snd x,
           r_prompt_tokens = length (a_input_ids a),
           r_generation_tokens = Suc (next_index st),
           r_prompt_tps = real (length (a_input_ids a)) / a_prompt_time a \<rparr>"
  using assms
  by (auto simp: make_result_def push_token_def bind_item_def Let_def next_index_def tps_ok_def
           split: option.splits)

lemma emit_fields:
  assumes "tps_ok a st"
  shows "l_detokenizer (emit a st x) =
           d_add_token (a_detokenizer a) (fst x) (a_skip_special_token_ids a) (l_detokenizer st)"
    and "next_index (emit a st x) = Suc (next_index st)"
    and "tps_ok a (emit a st x)"
    and "l_yielded (emit a st x) = l_yielded st @ step_records a (l_detokenizer st) (next_index st) [x]"
  using make_result_after_bind[OF assms, of x] assms
  by (auto simp: emit_def Let_def push_token_def bind_item_def next_index_def tps_ok_def
           split: option.splits)

lemma fold_emit_fields:
  assumes "tps_ok a st"
  shows "l_detokenizer (fold (\<lambda>y s. emit a s y) xs st) = detokenized a (l_detokenizer st) (map fst xs)
       \<and> next_index (fold (\<lambda>y s. emit a s y) xs st) = next_index st + length xs
       \<and> tps_ok a (fold (\<lambda>y s. emit a s y) xs st)
       \<and> l_yielded (fold (\<lambda>y s. emit a s y) xs st) =
           l_yielded st @ step_records a (l_detokenizer st) (next_index st) xs"
  using assms
proof (induction xs arbitrary: st)
  case Nil
  then show ?case by (simp add: detokenized_def)
next
  case (Cons x xs)
  note e = emit_fields[OF Cons.prems, of x]
  from Cons.IH[OF e(3)] e show ?case
    by (simp add: detokenized_def Let_def)
qed

lemma finish_after_bind:
  assumes "tps_ok a st"
  shows "finish a (bind_item a st x) =
     (l_yielded st @
      [\<lparr> r_text = d_last_segment (a_detokenizer a)
                     (d_finalize (a_detokenizer a) (l_detokenizer st)),
         r_token = fst x, r_logprobs = snd x,
         r_prompt_tokens = length (a_input_ids a),
         r_generation_tokens = Suc (next_index st),
         r_prompt_tps = real (length (a_input_ids a)) / a_prompt_time a \<rparr>], None)"
  using assms
  by (auto simp: finish_def make_result_def bind_item_def Let_def next_index_def tps_ok_def
           split: option.splits)

lemma stream_loop_stop:
  assumes "gen_items env cfg g (Suc (length xs)) = xs @ [x]"
    and "is_stop (a_stopping_criteria a) (fst x)"
    and "\<forall>y\<in>set xs. \<not> is_stop (a_stopping_criteria a) (fst y)"
    and "tps_ok a st"
  shows "stream_loop env cfg a st g =
           Some (finish a (bind_item a (fold (\<lambda>y s. emit a s y) xs st) x))"
  using assms
proof (induction xs arbitrary: st g)
  case Nil
  then obtain g' where "generate_step_next env cfg g = Yield x g'"
    by (auto split: gen_result.splits)
  with Nil show ?case
    by (subst stream_loop.simps) (simp add: Let_def)
next
  case (Cons y ys)
  from Cons.prems(1) obtain g' where
    nxt: "generate_step_next env cfg g = Yield y g'"
    and rest: "gen_items env cfg g' (Suc (length ys)) = ys @ [x]"
    by (auto split: gen_result.splits)
  have ny: "\<not> is_stop (a_stopping_criteria a) (fst y)" using Cons.prems(3) by simp
  note mr = make_result_after_bind[OF Cons.prems(4), of y]
  have step: "stream_loop env cfg a st g = stream_loop env cfg a (emit a st y) g'"
    using nxt ny mr by (subst stream_loop.simps) (simp add: Let_def emit_def)
  have "stream_loop env cfg a (emit a st y) g' =
          Some (finish a (bind_item a (fold (\<lambda>y s. emit a s y) ys (emit a st y)) x))"
    using Cons.prems emit_fields(3)[OF Cons.prems(4), of y]
    by (intro Cons.IH[OF rest]) simp_all
  with step show ?case by simp
qed

lemma stream_loop_exhaust:
  assumes "length (gen_items env cfg g k) = k"
    and "gen_end env cfg g k = StopIteration"
    and "\<forall>y\<in>set (gen_items env cfg g k). \<not> is_stop (a_stopping_criteria a) (fst y)"
    and "tps_ok a st"
  shows "stream_loop env cfg a st g =
           Some (finish a (fold (\<lambda>y s. emit a s y) (gen_items env cfg g k) st))"
  using assms
proof (induction k arbitrary: st g)
  case 0
  then show ?case by (subst stream_loop.simps) simp
next
  case (Suc k)
  from Suc.prems(1) obtain y g' where
    nxt: "generate_step_next env cfg g = Yield y g'"
    by (cases "generate_step_next env cfg g") auto
  have items: "gen_items env cfg g (Suc k) = y # gen_items env cfg g' k" using nxt by simp
  have all: "\<forall>z\<in>set (y # gen_items env cfg g' k). \<not> is_stop (a_stopping_criteria a) (fst z)"
    using Suc.prems(3) by (simp only: items)
  have len: "length (y # gen_items env cfg g' k) = Suc k"
    using Suc.prems(1) by (simp only: items)
  have ny: "\<not> is_stop (a_stopping_criteria a) (fst y)" using all by simp
  note mr = make_result_after_bind[OF Suc.prems(4), of y]
  have step: "stream_loop env cfg a st g = stream_loop env cfg a (emit a st y) g'"
    using nxt ny mr by (subst stream_loop.simps) (simp add: Let_def emit_def)
  have "stream_loop env cfg a (emit a st y) g' =
          Some (finish a (fold (\<lambda>y s. emit a s y) (gen_items env cfg g' k) (emit a st y)))"
  proof (rule Suc.IH)
    show "length (gen_items env cfg g' k) = k" using len by simp
    show "gen_end env cfg g' k = StopIteration" using Suc.prems(2) nxt by simp
    show "\<forall>y\<in>set (gen_items env cfg g' k). \<not> is_stop (a_stopping_criteria a) (fst y)"
      using all by simp
    show "tps_ok a (emit a st y)" by (rule emit_fields(3)[OF Suc.prems(4)])
  qed
  with step show ?case by (simp only: items fold_simps)
qed


lemma step_records_length: "length (step_records a d n xs) = length xs"
  by (induction xs arbitrary: d n) (simp_all add: Let_def)

lemma step_records_tokens: "map r_token (step_records a d n xs) = map fst xs"
  by (induction xs arbitrary: d n) (simp_all add: Let_def)

lemma step_records_counts:
  "map r_generation_tokens (step_records a d n xs) = map (\<lambda>i. Suc (n + i)) [0 ..< length xs]"
proof (induction xs arbitrary: d n)
  case Nil
  then show ?case by simp
next
  case (Cons x xs)
  show ?case
    by (simp add: Let_def Cons.IH map_upt_Suc del: upt_Suc)
qed

lemma step_records_prompt_tokens:
  "\<forall>r\<in>set (step_records a d n xs). r_prompt_tokens r = length (a_input_ids a)"
  by (induction xs arbitrary: d n) (simp_all add: Let_def)

lemma step_records_text:
  "map r_text (step_records a d n xs) =
     map (\<lambda>i. d_last_segment (a_detokenizer a) (detokenized a d (take (Suc i) (map fst xs))))
       [0 ..< length xs]"
proof (induction xs arbitrary: d n)
  case Nil
  then show ?case by simp
next
  case (Cons x xs)
  show ?case
    by (simp add: Let_def Cons.IH map_upt_Suc detokenized_def del: upt_Suc)
qed

lemma initial_state_fields:
  "tps_ok a (initial_state a d0)" "next_index (initial_state a d0) = 0"
  "l_yielded (initial_state a d0) = []"
  "l_detokenizer (initial_state a d0) = d_reset (a_detokenizer a) d0"
  by (simp_all add: tps_ok_def next_index_def initial_state_def)

lemma stream_generate_stop_outcome:
  assumes "generate_step_init env cfg (a_input_ids a) = (evs, Inr g0)"
    and "gen_items env cfg g0 (Suc (length xs)) = xs @ [(t, lp)]"
    and "is_stop (a_stopping_criteria a) t"
    and "\<forall>x\<in>set xs. \<not> is_stop (a_stopping_criteria a) (fst x)"
  shows "stream_generate env cfg a d0 =
     Some (step_records a (d_reset (a_detokenizer a) d0) 0 xs @
           [\<lparr> r_text = d_last_segment (a_detokenizer a)
                  (d_finalize (a_detokenizer a)
                     (detokenized a (d_reset (a_detokenizer a) d0) (map fst xs))),
              r_token = t, r_logprobs = lp,
              r_prompt_tokens = length (a_input_ids a),
              r_generation_tokens = Suc (length xs),
              r_prompt_tps = real (length (a_input_ids a)) / a_prompt_time a \<rparr>], None)"
proof -
  let ?st = "fold (\<lambda>y s. emit a s y) xs (initial_state a d0)"
  have loop: "stream_loop env cfg a (initial_state a d0) g0 = Some (finish a (bind_item a ?st (t, lp)))"
    using assms(2-4) initial_state_fields(1)[where a=a and ?d0.0=d0]
    by (intro stream_loop_stop) simp_all
  note f = fold_emit_fields[where a=a and st="initial_state a d0" and xs=xs,
             OF initial_state_fields(1)]
  have "finish a (bind_item a ?st (t, lp)) =
     (l_yielded ?st @
      [\<lparr> r_text = d_last_segment (a_detokenizer a)
                     (d_finalize (a_detokenizer a) (l_detokenizer ?st)),
         r_token = fst (t, lp), r_logprobs = snd (t, lp),
         r_prompt_tokens = length (a_input_ids a),
         r_generation_tokens = Suc (next_index ?st),
         r_prompt_tps = real (length (a_input_ids a)) / a_prompt_time a \<rparr>], None)"
    using f by (intro finish_after_bind) simp
  with loop f assms(1) show ?thesis
    by (simp add: stream_generate_def initial_state_fields)
qed

lemma sample_ok: "l \<noteq> [] \<Longrightarrow> \<exists>y lp. sample env cfg d l = Inr (y, lp)"
proof -
  assume "l \<noteq> []"
  then have "biased cfg l \<noteq> []" using biased_length[of cfg l] by auto
  then obtain x rest where "biased cfg l = x # rest" by (cases "biased cfg l") auto
  then show ?thesis by (simp add: sample_def Let_def argmax_def)
qed

lemma inner_step_ok:
  assumes "\<forall>h. forward env h \<noteq> []"
  shows "\<exists>y lp s'. inner_step env cfg s = Inr (y, lp, s') \<and> g_n s' = g_n s"
proof -
  let ?l = "if truthy (repetition_penalty cfg)
            then apply_repetition_penalty (forward env (g_fed s @ [g_y s]))
                   (g_repetition_context s) (as_real (repetition_penalty cfg))
            else forward env (g_fed s @ [g_y s])"
  have "?l \<noteq> []"
    using assms apply_repetition_penalty_length[of "forward env (g_fed s @ [g_y s])"
        "g_repetition_context s" "as_real (repetition_penalty cfg)"]
    by (auto simp del: apply_repetition_penalty_length)
  from sample_ok[OF this, of env cfg "g_draws s"] obtain y lp where
    "sample env cfg (g_draws s) ?l = Inr (y, lp)" by blast
  then show ?thesis by (simp add: inner_step_def Let_def)
qed

lemma generate_step_next_stop:
  "g_n s = max_tokens cfg \<Longrightarrow> generate_step_next env cfg s = StopIteration"
  by (simp add: generate_step_next_def)

lemma generate_step_next_stop_iff:
  "\<forall>h. forward env h \<noteq> [] \<Longrightarrow>
   (generate_step_next env cfg s = StopIteration) = (g_n s = max_tokens cfg)"
  using inner_step_ok[of env cfg s]
  by (auto simp: generate_step_next_def split: sum.splits)

lemma generate_step_next_yield:
  assumes "g_n s \<noteq> max_tokens cfg" "\<forall>h. forward env h \<noteq> []"
  shows "\<exists>x s'. generate_step_next env cfg s = Yield x s' \<and> g_n s' = g_n s + 1"
  using inner_step_ok[OF assms(2), of cfg s] assms(1)
  by (auto simp: generate_step_next_def)

lemma gen_runs_to_max:
  assumes "\<forall>h. forward env h \<noteq> []"
  shows "g_n s + int k = max_tokens cfg \<Longrightarrow>
         length (gen_items env cfg s k) = k \<and> gen_end env cfg s k = StopIteration"
proof (induction k arbitrary: s)
  case 0
  then show ?case by (simp add: generate_step_next_stop)
next
  case (Suc k)
  then have "g_n s \<noteq> max_tokens cfg" by simp
  from generate_step_next_yield[OF this assms] obtain x s' where
    nxt: "generate_step_next env cfg s = Yield x s'" "g_n s' = g_n s + 1" by blast
  then have "g_n s' + int k = max_tokens cfg" using Suc.prems by simp
  from Suc.IH[OF this] nxt show ?case by simp
qed

lemma generate_step_init_n:
  "generate_step_init env cfg input_ids = (evs, Inr g) \<Longrightarrow> g_n g = 0"
  by (auto simp: generate_step_init_def Let_def split: sum.splits prod.splits)

lemma finish_after_emit:
  assumes "tps_ok a st"
  shows "finish a (emit a st x) =
     (l_yielded (emit a st x) @
      [\<lparr> r_text = d_last_segment (a_detokenizer a)
                     (d_finalize (a_detokenizer a) (l_detokenizer (emit a st x))),
         r_token = fst x, r_logprobs = snd x,
         r_prompt_tokens = length (a_input_ids a),
         r_generation_tokens = Suc (next_index st),
         r_prompt_tps = real (length (a_input_ids a)) / a_prompt_time a \<rparr>], None)"
  using make_result_after_bind[OF assms, of x] assms
  by (auto simp: finish_def emit_def make_result_def push_token_def bind_item_def Let_def
        next_index_def tps_ok_def split: option.splits)

lemma stream_generate_exhaust_outcome:
  assumes "generate_step_init env cfg (a_input_ids a) = (evs, Inr g0)"
    and "gen_items env cfg g0 n = ys @ [y]" and "n = Suc (length ys)"
    and "gen_end env cfg g0 n = StopIteration"
    and "\<forall>x\<in>set (ys @ [y]). \<not> is_stop (a_stopping_criteria a) (fst x)"
  shows "stream_generate env cfg a d0 =
     Some (step_records a (d_reset (a_detokenizer a) d0) 0 (ys @ [y]) @
           [\<lparr> r_text = d_last_segment (a_detokenizer a)
                  (d_finalize (a_detokenizer a)
                     (detokenized a (d_reset (a_detokenizer a) d0) (map fst (ys @ [y])))),
              r_token = fst y, r_logprobs = snd y,
              r_prompt_tokens = length (a_input_ids a),
              r_generation_tokens = Suc (length ys),
              r_prompt_tps = real (length (a_input_ids a)) / a_prompt_time a \<rparr>], None)"
proof -
  let ?st = "fold (\<lambda>y s. emit a s y) ys (initial_state a d0)"
  have "stream_loop env cfg a (initial_state a d0) g0 =
          Some (finish a (fold (\<lambda>y s. emit a s y) (gen_items env cfg g0 n) (initial_state a d0)))"
    using assms(2-5) initial_state_fields(1)[where a=a and ?d0.0=d0]
    by (intro stream_loop_exhaust) simp_all
  then have loop: "stream_loop env cfg a (initial_state a d0) g0 = Some (finish a (emit a ?st y))"
    by (simp add: assms(2))
  note f = fold_emit_fields[where a=a and st="initial_state a d0" and xs=ys,
             OF initial_state_fields(1)]
  note g = fold_emit_fields[where a=a and st="initial_state a d0" and xs="ys @ [y]",
             OF initial_state_fields(1)]
  have ok: "tps_ok a ?st" using f by simp
  show ?thesis
    using loop assms(1) finish_after_emit[OF ok, of y] f g
    by (simp add: stream_generate_def initial_state_fields)
qed

text \<open>
  Claim C1, as the code has it. Let the generator produce the items \<open>xs\<close> and then a token
  \<open>t\<close> on which the stopping criteria holds, none of \<open>xs\<close> being a stop token. The loop
  tests the criteria on each token before it pushes the token into the detokenizer and
  before it builds the token's per-step record, so the stream consists of one per-step
  record for each token of \<open>xs\<close>, in order, followed by one trailing record, and ends there:
  there are as many per-step records as tokens strictly before \<open>t\<close>; \<open>t\<close> is the token of no
  per-step record; every text, the trailing one included, is what the detokenizer reveals
  after it has been given tokens of \<open>xs\<close> only. The trailing record is built from the loop
  variables as the \<^verbatim>\<open>break\<close> left them: its \<open>token\<close> field is \<open>t\<close> and its
  \<^verbatim>\<open>generation_tokens\<close> is \<open>n + 1\<close>, the number of tokens taken from the generator, \<open>t\<close>
  included.
\<close>

theorem stop_token_never_emitted:
  assumes "generate_step_init env cfg (a_input_ids a) = (evs, Inr g0)"
    and "gen_items env cfg g0 (Suc k) = xs @ [(t, lp)]" and "length xs = k"
    and "is_stop (a_stopping_criteria a) t"
    and "\<forall>x\<in>set xs. \<not> is_stop (a_stopping_criteria a) (fst x)"
  shows "\<exists>recs final. stream_generate env cfg a d0 = Some (recs @ [final], None)
       \<and> length recs = k
       \<and> map r_token recs = map fst xs
       \<and> t \<notin> set (map r_token recs)
       \<and> (\<forall>r\<in>set recs. \<not> is_stop (a_stopping_criteria a) (r_token r))
       \<and> map r_generation_tokens recs = map Suc [0 ..< k]
       \<and> map r_text recs =
           map (\<lambda>i. d_last_segment (a_detokenizer a)
                      (detokenized a (d_reset (a_detokenizer a) d0) (take (Suc i) (map fst xs))))
               [0 ..< k]
       \<and> r_text final =
           d_last_segment (a_detokenizer a)
             (d_finalize (a_detokenizer a)
                (detokenized a (d_reset (a_detokenizer a) d0) (map fst xs)))
       \<and> r_token final = t \<and> r_generation_tokens final = Suc k"
proof -
  let ?recs = "step_records a (d_reset (a_detokenizer a) d0) 0 xs"
  let ?final = "\<lparr> r_text = d_last_segment (a_detokenizer a)
                  (d_finalize (a_detokenizer a)
                     (detokenized a (d_reset (a_detokenizer a) d0) (map fst xs))),
              r_token = t, r_logprobs = lp,
              r_prompt_tokens = length (a_input_ids a),
              r_generation_tokens = Suc (length xs),
              r_prompt_tps = real (length (a_input_ids a)) / a_prompt_time a \<rparr>"
  have tok: "map r_token ?recs = map fst xs" by (rule step_records_tokens)
  have nostop: "\<forall>r\<in>set ?recs. \<not> is_stop (a_stopping_criteria a) (r_token r)"
  proof
    fix r assume "r \<in> set ?recs"
    then have "r_token r \<in> set (map r_token ?recs)" by simp
    then have "r_token r \<in> fst ` set xs" by (simp add: tok)
    with assms(5) show "\<not> is_stop (a_stopping_criteria a) (r_token r)" by auto
  qed
  have notin: "t \<notin> set (map r_token ?recs)"
    using nostop assms(4) by auto
  show ?thesis
    using stream_generate_stop_outcome[OF assms(1) _ assms(4,5), of lp d0] assms(2,3)
      tok nostop notin
      step_records_length[of a "d_reset (a_detokenizer a) d0" 0 xs]
      step_records_counts[of a "d_reset (a_detokenizer a) d0" 0 xs]
      step_records_text[of a "d_reset (a_detokenizer a) d0" 0 xs]
    by (intro exI[of _ ?recs] exI[of _ ?final]) (simp del: upt_Suc)
qed


lemma init_stop:
  "generate_step_init env_stop (cfg0 PNone) (a_input_ids args_stop)
     = ([CacheCreated, ForwardPass], Inr g_init_stop)"
  by (simp add: generate_step_init_def check_repetition_penalty_def cfg0_def env_stop_def
        args_stop_def trim_context_def py_slice_from_def sample_def biased_def argmax_def Let_def
        g_init_stop_def)

lemma items_stop:
  "gen_items env_stop (cfg0 PNone) g_init_stop (Suc 2)
     = [(1, [0, 1, 0, 0, 0, 0, 0, 0]), (2, [0, 0, 1, 0, 0, 0, 0, 0])]
       @ [(7, [0, 0, 0, 0, 0, 0, 0, 1])]"
  by (simp add: eval_nat_numeral generate_step_next_def inner_step_def cfg0_def env_stop_def
        trim_context_def py_slice_from_def sample_def biased_def argmax_def Let_def
        g_init_stop_def)

theorem stop_token_never_emitted_witness:
  "\<exists>recs final. stream_generate env_stop (cfg0 PNone) args_stop ([], [])
         = Some (recs @ [final], None)
       \<and> length recs = 2
       \<and> map r_token recs = [1, 2]
       \<and> 7 \<notin> set (map r_token recs)
       \<and> map r_text recs = [''w'', ''w'']
       \<and> r_text final = []"
proof -
  have st: "is_stop (a_stopping_criteria args_stop) 7"
    by (simp add: args_stop_def is_stop_def StoppingCriteria_def)
  have ns: "\<forall>x\<in>set [(1, [0, 1, 0, 0, 0, 0, 0, 0]), (2::int, [0, 0, 1, 0, 0, 0, 0, 0::real])].
              \<not> is_stop (a_stopping_criteria args_stop) (fst x)"
    by (simp add: args_stop_def is_stop_def StoppingCriteria_def)
  have len: "length [(1::int, [0, 1, 0, 0, 0, 0, 0, 0::real]), (2, [0, 0, 1, 0, 0, 0, 0, 0])] = 2"
    by simp
  from stop_token_never_emitted [OF init_stop items_stop len st ns, of "([], [])"]
  obtain recs final where
    r: "stream_generate env_stop (cfg0 PNone) args_stop ([], []) = Some (recs @ [final], None)"
       "length recs = 2" "map r_token recs = [1, 2]" "7 \<notin> set (map r_token recs)"
       "map r_text recs =
           map (\<lambda>i. d_last_segment (a_detokenizer args_stop)
                      (detokenized args_stop (d_reset (a_detokenizer args_stop) ([], []))
                         (take (Suc i) (map fst [(1::int, [0, 1, 0, 0, 0, 0, 0, 0::real]),
                                                  (2, [0, 0, 1, 0, 0, 0, 0, 0])]))))
               [0 ..< 2]"
       "r_text final =
           d_last_segment (a_detokenizer args_stop)
             (d_finalize (a_detokenizer args_stop)
                (detokenized args_stop (d_reset (a_detokenizer args_stop) ([], []))
                   (map fst [(1::int, [0, 1, 0, 0, 0, 0, 0, 0::real]),
                             (2, [0, 0, 1, 0, 0, 0, 0, 0])])))"
    by auto
  have t1: "map r_text recs = [''w'', ''w'']"
    using r(5) by (simp add: eval_nat_numeral args_stop_def det0_def detokenized_def)
  have t2: "r_text final = []"
    using r(6) by (simp add: args_stop_def det0_def detokenized_def)
  show ?thesis
    by (intro exI[of _ recs] exI[of _ final] conjI) (fact r(1-4) t1 t2)+
qed

text \<open>
  The claim as stated fails at the trailing record: with EOS id \<open>7\<close> and the tokens
  \<open>1, 2, 7\<close>, the stream ends with a record whose token is the stop token \<open>7\<close> and whose
  \<^verbatim>\<open>generation_tokens\<close> is \<open>3\<close>, while two tokens come strictly before the stop token.
\<close>

theorem stop_token_never_emitted_counterexample:
  "stream_generate env_stop (cfg0 PNone) args_stop ([], [])
     = Some ([\<lparr> r_text = ''w'', r_token = 1, r_logprobs = [0, 1, 0, 0, 0, 0, 0, 0],
                 r_prompt_tokens = 3, r_generation_tokens = 1, r_prompt_tps = 3 / 2 \<rparr>,
              \<lparr> r_text = ''w'', r_token = 2, r_logprobs = [0, 0, 1, 0, 0, 0, 0, 0],
                 r_prompt_tokens = 3, r_generation_tokens = 2, r_prompt_tps = 3 / 2 \<rparr>,
              \<lparr> r_text = [], r_token = 7, r_logprobs = [0, 0, 0, 0, 0, 0, 0, 1],
                 r_prompt_tokens = 3, r_generation_tokens = 3, r_prompt_tps = 3 / 2 \<rparr>], None)"
proof -
  have st: "is_stop (a_stopping_criteria args_stop) 7"
    by (simp add: args_stop_def is_stop_def StoppingCriteria_def)
  have ns: "\<forall>x\<in>set [(1, [0, 1, 0, 0, 0, 0, 0, 0]), (2::int, [0, 0, 1, 0, 0, 0, 0, 0::real])].
              \<not> is_stop (a_stopping_criteria args_stop) (fst x)"
    by (simp add: args_stop_def is_stop_def StoppingCriteria_def)
  have items: "gen_items env_stop (cfg0 PNone) g_init_stop
                 (Suc (length [(1::int, [0, 1, 0, 0, 0, 0, 0, 0::real]), (2, [0, 0, 1, 0, 0, 0, 0, 0])]))
     = [(1, [0, 1, 0, 0, 0, 0, 0, 0]), (2, [0, 0, 1, 0, 0, 0, 0, 0])]
       @ [(7, [0, 0, 0, 0, 0, 0, 0, 1])]"
  proof -
    have len2: "Suc (length [(1::int, [0, 1, 0, 0, 0, 0, 0, 0::real]), (2, [0, 0, 1, 0, 0, 0, 0, 0])])
                  = Suc 2" by simp
    show ?thesis by (subst len2) (rule items_stop)
  qed
  from stream_generate_stop_outcome [OF init_stop items st ns, of "([], [])"]
  show ?thesis
    by (simp add: args_stop_def det0_def detokenized_def Let_def)
qed

lemma upt_five: "map (\<lambda>i. Suc (0 + i)) [0 ..< 5] = [1, 2, 3, 4, 5]"
  by (simp add: eval_nat_numeral)

text \<open>
  Claim C2. With \<^verbatim>\<open>max_tokens = 5\<close>, a prompt of length ten, a model that produces logits
  at every step and a stopping criteria that holds on none of the five produced tokens,
  the streaming call yields five per-step records, numbered \<open>1\<close> to \<open>5\<close>, and then one
  trailing record whose \<^verbatim>\<open>generation_tokens\<close> is \<open>5\<close>, and ends without an exception.
\<close>

theorem five_steps_then_final:
  assumes "max_tokens cfg = 5" and "length (a_input_ids a) = 10"
    and "generate_step_init env cfg (a_input_ids a) = (evs, Inr g0)"
    and "\<forall>h. forward env h \<noteq> []"
    and "\<forall>x\<in>set (gen_items env cfg g0 5). \<not> is_stop (a_stopping_criteria a) (fst x)"
  shows "\<exists>recs final. stream_generate env cfg a d0 = Some (recs @ [final], None)
       \<and> length recs = 5
       \<and> map r_token recs = map fst (gen_items env cfg g0 5)
       \<and> map r_generation_tokens recs = [1, 2, 3, 4, 5]
       \<and> r_generation_tokens final = 5
       \<and> (\<forall>r\<in>set (recs @ [final]). r_prompt_tokens r = 10)"
proof -
  have n0: "g_n g0 + int 5 = max_tokens cfg"
    using generate_step_init_n[OF assms(3)] assms(1) by simp
  from gen_runs_to_max[OF assms(4) n0] have
    len: "length (gen_items env cfg g0 5) = 5" and stop: "gen_end env cfg g0 5 = StopIteration"
    by simp_all
  from len have "gen_items env cfg g0 5 \<noteq> []" by auto
  then obtain ys y where xs: "gen_items env cfg g0 5 = ys @ [y]" by (metis rev_exhaust)
  have five: "5 = Suc (length ys)" using len by (simp add: xs)
  let ?recs = "step_records a (d_reset (a_detokenizer a) d0) 0 (ys @ [y])"
  let ?final = "\<lparr> r_text = d_last_segment (a_detokenizer a)
                  (d_finalize (a_detokenizer a)
                     (detokenized a (d_reset (a_detokenizer a) d0) (map fst (ys @ [y])))),
              r_token = fst y, r_logprobs = snd y,
              r_prompt_tokens = length (a_input_ids a),
              r_generation_tokens = Suc (length ys),
              r_prompt_tps = real (length (a_input_ids a)) / a_prompt_time a \<rparr>"
  have out: "stream_generate env cfg a d0 = Some (?recs @ [?final], None)"
    using assms(5) stop
    by (intro stream_generate_exhaust_outcome[OF assms(3) xs five]) (simp_all add: xs)
  have len5: "length (ys @ [y]) = 5" using len by (simp only: xs)
  have "map r_generation_tokens ?recs = map (\<lambda>i. Suc (0 + i)) [0 ..< 5]"
    by (simp only: step_records_counts len5)
  then have counts: "map r_generation_tokens ?recs = [1, 2, 3, 4, 5]"
    by (simp only: upt_five)
  have l5: "length ?recs = 5" using five by (simp add: step_records_length)
  have tk: "map r_token ?recs = map fst (gen_items env cfg g0 5)"
    by (simp only: step_records_tokens xs)
  have g5: "r_generation_tokens ?final = 5" using five by simp
  have pt: "\<forall>r\<in>set (?recs @ [?final]). r_prompt_tokens r = 10"
    using step_records_prompt_tokens[of a "d_reset (a_detokenizer a) d0" 0 "ys @ [y]"] assms(2)
    by simp
  show ?thesis
    by (intro exI[of _ ?recs] exI[of _ ?final] conjI) (fact out l5 tk counts g5 pt)+
qed

lemma init0:
  "generate_step_init env0 (cfg0 PNone) (a_input_ids args0) = ([CacheCreated, ForwardPass], Inr g_init0)"
  by (simp add: generate_step_init_def check_repetition_penalty_def cfg0_def env0_def args0_def
        trim_context_def py_slice_from_def sample_def biased_def argmax_def Let_def g_init0_def)

lemma env0_tokens:
  "generate_step_next env0 (cfg0 PNone) s = Yield x s' \<Longrightarrow> fst x = g_y s \<and> g_y s' = 2"
  by (auto simp: generate_step_next_def inner_step_def cfg0_def env0_def sample_def biased_def
        argmax_def Let_def split: if_splits)

lemma env0_items: "g_y s = 2 \<Longrightarrow> \<forall>x\<in>set (gen_items env0 (cfg0 PNone) s k). fst x = 2"
proof (induction k arbitrary: s)
  case 0
  then show ?case by simp
next
  case (Suc k)
  show ?case
  proof (cases "generate_step_next env0 (cfg0 PNone) s")
    case (Yield x s')
    from env0_tokens[OF Yield] Suc.prems have "fst x = 2" "g_y s' = 2" by simp_all
    with Suc.IH[of s'] Yield show ?thesis by simp
  qed simp_all
qed

theorem five_steps_then_final_witness:
  "\<exists>recs final. stream_generate env0 (cfg0 PNone) args0 ([], []) = Some (recs @ [final], None)
       \<and> length recs = 5
       \<and> map r_generation_tokens recs = [1, 2, 3, 4, 5]
       \<and> r_generation_tokens final = 5"
proof -
  have m: "max_tokens (cfg0 PNone) = 5" by (simp add: cfg0_def)
  have l: "length (a_input_ids args0) = 10" by (simp add: args0_def)
  have f: "\<forall>h. forward env0 h \<noteq> []" by (simp add: env0_def)
  have "g_y g_init0 = 2" by (simp add: g_init0_def)
  from env0_items[OF this, of 5]
  have ns: "\<forall>x\<in>set (gen_items env0 (cfg0 PNone) g_init0 5).
              \<not> is_stop (a_stopping_criteria args0) (fst x)"
    by (simp add: args0_def is_stop_def StoppingCriteria_def)
  from five_steps_then_final [OF m l init0 f ns, of "([], [])"]
  obtain recs final where
    r: "stream_generate env0 (cfg0 PNone) args0 ([], []) = Some (recs @ [final], None)"
       "length recs = 5" "map r_generation_tokens recs = [1, 2, 3, 4, 5]"
       "r_generation_tokens final = 5"
    by auto
  show ?thesis
    by (intro exI[of _ recs] exI[of _ final] conjI) (fact r)+
qed

text \<open>
  Claim C10. After the prefill the generator stops at once exactly when it is resumed
  with \<^verbatim>\<open>n == max_tokens\<close>, that is for \<^verbatim>\<open>max_tokens = 0\<close>. The loop body of
  \<^verbatim>\<open>stream_generate\<close> then never runs: \<open>token\<close>, \<open>logprobs\<close>, \<open>n\<close> and \<open>prompt_tps\<close>, which
  only the loop binds, are unbound, the trailing record cannot be built, and the call
  ends with \<^verbatim>\<open>UnboundLocalError\<close> having yielded no record at all.
\<close>

theorem no_token_no_final_record:
  assumes "generate_step_init env cfg (a_input_ids a) = (evs, Inr g0)"
  shows "(max_tokens cfg = 0 \<longrightarrow> generate_step_next env cfg g0 = StopIteration)
       \<and> (generate_step_next env cfg g0 = StopIteration \<longrightarrow>
            stream_generate env cfg a d0 = Some ([], Some (UnboundLocalError ''token'')))
       \<and> l_token (initial_state a d0) = None \<and> l_logprobs (initial_state a d0) = None
       \<and> l_n (initial_state a d0) = None \<and> l_prompt_tps (initial_state a d0) = None
       \<and> (\<forall>x. l_token (bind_item a (initial_state a d0) x) = Some (fst x)
              \<and> l_logprobs (bind_item a (initial_state a d0) x) = Some (snd x)
              \<and> l_n (bind_item a (initial_state a d0) x) = Some 0
              \<and> l_prompt_tps (bind_item a (initial_state a d0) x)
                  = Some (real (length (a_input_ids a)) / a_prompt_time a))"
proof (intro conjI impI allI)
  assume "max_tokens cfg = 0"
  then show "generate_step_next env cfg g0 = StopIteration"
    using generate_step_init_n[OF assms] by (simp add: generate_step_next_stop)
next
  assume "generate_step_next env cfg g0 = StopIteration"
  then have "stream_loop env cfg a (initial_state a d0) g0 = Some (finish a (initial_state a d0))"
    by (subst stream_loop.simps) simp
  then show "stream_generate env cfg a d0 = Some ([], Some (UnboundLocalError ''token''))"
    using assms by (simp add: stream_generate_def finish_def make_result_def initial_state_def)
qed (simp_all add: initial_state_def bind_item_def Let_def)


lemma init_zero:
  "generate_step_init env0 ((cfg0 PNone)\<lparr> max_tokens := 0 \<rparr>) (a_input_ids args0)
     = ([CacheCreated, ForwardPass], Inr g_init0)"
  by (simp add: generate_step_init_def check_repetition_penalty_def cfg0_def env0_def args0_def
        trim_context_def py_slice_from_def sample_def biased_def argmax_def Let_def g_init0_def)

theorem no_token_no_final_record_witness:
  "generate_step_next env0 ((cfg0 PNone)\<lparr> max_tokens := 0 \<rparr>) g_init0 = StopIteration
   \<and> stream_generate env0 ((cfg0 PNone)\<lparr> max_tokens := 0 \<rparr>) args0 ([], [])
       = Some ([], Some (UnboundLocalError ''token''))"
  using no_token_no_final_record [OF init_zero, of "([], [])"]
  by simp


end
